theory Spec2Isabelle
  imports Main "HOL-Library.Char_ord" "HOL-Library.List_Lexorder"
begin

section \<open>Values of the Go runtime and of the JSON decoder\<close>

text \<open>
  The three custom decoders of the package (\<^verbatim>\<open>LineItem.UnmarshalJSON\<close>,
  \<^verbatim>\<open>ShippingLines.UnmarshalJSON\<close>, \<^verbatim>\<open>RecurringApplicationCharge.UnmarshalJSON\<close>) call
  \<^verbatim>\<open>encoding/json\<close>, \<^verbatim>\<open>fmt\<close> and \<^verbatim>\<open>time\<close>. The payload bytes are modelled after lexing:
  a payload is either not JSON at all or a JSON value. A number token is kept as the decimal
  it writes: the sign, the digits read as an integer and the power of ten, so that
  \<^verbatim>\<open>1e400\<close> is \<open>Number False 1 400\<close> and \<^verbatim>\<open>-0.5\<close> is \<open>Number True 5 (- 1)\<close>. A
  \<^verbatim>\<open>float64\<close> is represented by the shortest decimal digits that identify it, which is the
  \<^verbatim>\<open>decimalSlice\<close> that \<^verbatim>\<open>strconv\<close> computes before it formats: the digits
  (most significant first, no trailing zero), the position of the decimal point, the sign.
\<close>

datatype float64 = Float64 (f_neg: bool) (f_d: "nat list") (f_dp: int)

datatype number = Number (n_neg: bool) (n_mantissa: int) (n_exponent: int)

datatype json =
    JNull
  | JBool bool
  | JNumber number
  | JString string
  | JArray "json list"
  | JObject "(string \<times> json) list"

text \<open>What an \<^verbatim>\<open>interface{}\<close> holds after decoding: \<^verbatim>\<open>nil\<close>, \<^verbatim>\<open>bool\<close>, \<^verbatim>\<open>float64\<close>,
  \<^verbatim>\<open>string\<close>, \<^verbatim>\<open>[]interface{}\<close> or \<^verbatim>\<open>map[string]interface{}\<close> (kept sorted by key,
  one entry per key).\<close>

datatype go_value =
    GNil
  | GBool bool
  | GFloat float64
  | GString string
  | GSlice "go_value list"
  | GMap "(string \<times> go_value) list"

datatype error =
    SyntaxError
  | UnmarshalTypeError (ute_value: string) (ute_type: string)
  | ParseError (pe_layout: string) (pe_value: string)
  | MalformedPaginationError
  | ResponseError string

text \<open>A call either panics or returns its \<^verbatim>\<open>error\<close> (\<open>None\<close> is \<^verbatim>\<open>nil\<close>) together
  with the receiver as the call left it.\<close>

datatype 'a outcome = Panic | Return "error option" 'a

subsection \<open>Field names\<close>

text \<open>
  A key of a JSON object selects the struct field whose name it equals after case folding.
  The field names of this package are ASCII, so folding matters on ASCII letters and on
  the two runes that fold to an ASCII letter: U+017F (bytes C5 BF) to \<^verbatim>\<open>S\<close> and U+212A
  (bytes E2 84 AA) to \<^verbatim>\<open>K\<close>.
\<close>

definition toUpperASCII :: "char \<Rightarrow> char" where
  "toUpperASCII c =
     (let n = (of_char c :: nat) in if 97 \<le> n \<and> n \<le> 122 then char_of (n - 32) else c)"

fun foldName :: "string \<Rightarrow> string" where
  "foldName [] = []"
| "foldName (c # cs) =
     (if c = CHR 0xC5 \<and> take 1 cs = [CHR 0xBF] then CHR ''S'' # foldName (drop 1 cs)
      else if c = CHR 0xE2 \<and> take 2 cs = [CHR 0x84, CHR 0xAA]
        then CHR ''K'' # foldName (drop 2 cs)
      else toUpperASCII c # foldName cs)"

declare foldName.simps [simp del]

definition matchesField :: "string \<Rightarrow> string \<Rightarrow> bool" where
  "matchesField key name = (foldName key = foldName name)"

text \<open>The value that ends up in a field: later duplicates of a key overwrite earlier ones.\<close>

fun raw_field :: "string \<Rightarrow> (string \<times> json) list \<Rightarrow> json option" where
  "raw_field name [] = None"
| "raw_field name ((k, v) # kvs) =
     (case raw_field name kvs of
        Some w \<Rightarrow> Some w
      | None \<Rightarrow> if matchesField k name then Some v else None)"

definition other_members :: "string \<Rightarrow> (string \<times> json) list \<Rightarrow> (string \<times> json) list" where
  "other_members name kvs = filter (\<lambda>kv. \<not> matchesField (fst kv) name) kvs"

subsection \<open>Decoding an object into a struct\<close>

text \<open>
  The decoder walks the members in order and hands each to the field it selects. A value of
  the wrong JSON kind is recorded (the first such error is kept) and decoding goes on; an
  error returned by a nested \<^verbatim>\<open>UnmarshalJSON\<close> stops the decoding at once.
\<close>

datatype 's step = Stored 's | Mismatch error 's | Abort error 's

fun map_step :: "('a \<Rightarrow> 'b) \<Rightarrow> 'a step \<Rightarrow> 'b step" where
  "map_step g (Stored s) = Stored (g s)"
| "map_step g (Mismatch e s) = Mismatch e (g s)"
| "map_step g (Abort e s) = Abort e (g s)"

definition saveError :: "error option \<Rightarrow> error \<Rightarrow> error option" where
  "saveError saved e = (case saved of None \<Rightarrow> Some e | Some e0 \<Rightarrow> Some e0)"

fun decode_members ::
  "(string \<Rightarrow> json \<Rightarrow> 's \<Rightarrow> 's step) \<Rightarrow> (string \<times> json) list \<Rightarrow> error option \<Rightarrow> 's
    \<Rightarrow> error option \<times> 's" where
  "decode_members f [] saved s = (saved, s)"
| "decode_members f ((k, v) # kvs) saved s =
     (case f k v s of
        Stored s' \<Rightarrow> decode_members f kvs saved s'
      | Mismatch e s' \<Rightarrow> decode_members f kvs (saveError saved e) s'
      | Abort e s' \<Rightarrow> (Some e, s'))"

fun kind :: "json \<Rightarrow> string" where
  "kind JNull = ''null''"
| "kind (JBool b) = ''bool''"
| "kind (JNumber n) = ''number''"
| "kind (JString s) = ''string''"
| "kind (JArray xs) = ''array''"
| "kind (JObject kvs) = ''object''"

text \<open>
  \<^verbatim>\<open>json.Unmarshal(data, &aux)\<close> where \<^verbatim>\<open>aux\<close> is a pointer to a struct: the second
  component is the struct \<^verbatim>\<open>aux\<close> points to afterwards, \<open>None\<close> when the payload
  \<^verbatim>\<open>null\<close> has set the pointer to \<^verbatim>\<open>nil\<close>. A type error names the kind of the JSON
  value and the Go type \<open>ty\<close> (for the anonymous auxiliary structs an abbreviation of it);
  the offset and the field name it also holds are left out.
\<close>

definition unmarshal_struct ::
  "string \<Rightarrow> (string \<Rightarrow> json \<Rightarrow> 's \<Rightarrow> 's step) \<Rightarrow> json option \<Rightarrow> 's
    \<Rightarrow> error option \<times> 's option" where
  "unmarshal_struct ty f data s =
     (case data of
        None \<Rightarrow> (Some SyntaxError, Some s)
      | Some JNull \<Rightarrow> (None, None)
      | Some (JObject kvs) \<Rightarrow> (case decode_members f kvs None s of (e, s') \<Rightarrow> (e, Some s'))
      | Some v \<Rightarrow> (Some (UnmarshalTypeError (kind v) ty), Some s))"

subsection \<open>\<^verbatim>\<open>strconv.ParseFloat\<close> on a number token\<close>

text \<open>The decimal digits of a natural number, and the same without trailing zeros.\<close>

function digits_of :: "int \<Rightarrow> nat list" where
  "digits_of n = (if n < 10 then [nat n] else digits_of (n div 10) @ [nat (n mod 10)])"
  by pat_completeness auto
termination
  by (relation "measure nat") auto

declare digits_of.simps [simp del]

fun strip_zeros :: "nat list \<Rightarrow> nat list" where
  "strip_zeros [] = []"
| "strip_zeros (x # xs) = (case strip_zeros xs of [] \<Rightarrow> (if x = 0 then [] else [x]) | ys \<Rightarrow> x # ys)"

text \<open>
  \<^verbatim>\<open>convertNumber\<close> of the decoder is \<^verbatim>\<open>strconv.ParseFloat(s, 64)\<close>: the \<^verbatim>\<open>float64\<close>
  nearest to the decimal, ties to the even mantissa, and an error when that is beyond the
  largest \<^verbatim>\<open>float64\<close>. Values are fractions of integers with a positive denominator;
  \<open>scale b x\<close> multiplies by \<open>b ^ x\<close>.
\<close>

type_synonym frac = "int \<times> int"

definition scale :: "int \<Rightarrow> int \<Rightarrow> frac \<Rightarrow> frac" where
  "scale b x q = (if 0 \<le> x then (fst q * b ^ nat x, snd q) else (fst q, snd q * b ^ nat (- x)))"

definition frac_le :: "frac \<Rightarrow> frac \<Rightarrow> bool" where
  "frac_le a b = (fst a * snd b \<le> fst b * snd a)"

definition frac_less :: "frac \<Rightarrow> frac \<Rightarrow> bool" where
  "frac_less a b = (fst a * snd b < fst b * snd a)"

text \<open>The number of digits of a positive integer in base \<open>b\<close>, and with it the
  exponent \<open>c\<close> with \<open>b ^ c \<le> q < b ^ (c + 1)\<close>.\<close>

function length_in :: "int \<Rightarrow> int \<Rightarrow> int" where
  "length_in b n = (if n \<le> 0 \<or> b < 2 then 0 else 1 + length_in b (n div b))"
  by pat_completeness auto
termination
  by (relation "measure (\<lambda>(b, n). nat n)") (auto simp: pos_imp_zdiv_neg_iff div_less_dividend intro: int_div_less_self)

declare length_in.simps [simp del]

definition floorlog :: "int \<Rightarrow> frac \<Rightarrow> int" where
  "floorlog b q =
     (let c = length_in b (fst q) - length_in b (snd q)
      in if frac_le (scale b c (1, 1)) q then c else c - 1)"

definition round_half_even :: "frac \<Rightarrow> int" where
  "round_half_even q =
     (let k = fst q div snd q; r = fst q mod snd q
      in if snd q < 2 * r \<or> (2 * r = snd q \<and> odd k) then k + 1 else k)"

text \<open>
  The nearest \<^verbatim>\<open>float64\<close> of \<open>m * 10 ^ e\<close> for \<open>m > 0\<close>, as mantissa \<open>k \<le> 2 ^ 53\<close>
  and exponent \<open>p \<ge> - 1074\<close> of the value \<open>k * 2 ^ p\<close>; \<open>None\<close> when it is out of range.
  The first two tests are the library's own for the obvious cases: more than 310 digits
  before the point is too large, and a value below \<open>10 ^ - 330\<close> is zero.
\<close>

definition nearest_float64 :: "int \<Rightarrow> int \<Rightarrow> (int \<times> int) option" where
  "nearest_float64 m e =
     (let dp = length_in 10 m + e
      in if 310 < dp then None
         else if dp < - 330 then Some (0, - 1074)
         else
           (let q = scale 10 e (m, 1);
                p = max (floorlog 2 q - 52) (- 1074);
                k = round_half_even (scale 2 (- p) q)
            in if frac_le (scale 2 1024 (1, 1)) (scale 2 p (k, 1)) then None else Some (k, p)))"

text \<open>
  The shortest digits of the \<^verbatim>\<open>float64\<close> \<open>k * 2 ^ p\<close>: the decimal with the fewest digits
  among those that \<^verbatim>\<open>ParseFloat\<close> reads back as this \<^verbatim>\<open>float64\<close>, that is, which lie
  between the midpoints to its two neighbours (the midpoints themselves when the mantissa is
  even), and of these the nearest. With \<open>n\<close> digits the candidates are the value cut off
  and the next one up; seventeen digits always suffice.
\<close>

definition inside :: "frac \<Rightarrow> frac \<Rightarrow> bool \<Rightarrow> frac \<Rightarrow> bool" where
  "inside lo hi closed c =
     (if closed then frac_le lo c \<and> frac_le c hi else frac_less lo c \<and> frac_less c hi)"

function shortest_from :: "frac \<Rightarrow> frac \<Rightarrow> frac \<Rightarrow> bool \<Rightarrow> int \<Rightarrow> int \<Rightarrow> int \<times> int" where
  "shortest_from v lo hi closed e10 n =
     (let x = e10 - n + 1;
          w = scale 10 (- x) v;
          dlo = fst w div snd w;
          dhi = (if fst w mod snd w = 0 then dlo else dlo + 1);
          in_lo = inside lo hi closed (scale 10 x (dlo, 1));
          in_hi = inside lo hi closed (scale 10 x (dhi, 1))
      in if in_lo \<and> \<not> in_hi then (dlo, x)
         else if in_hi \<and> \<not> in_lo then (dhi, x)
         else if in_lo \<or> 17 \<le> n then (round_half_even w, x)
         else shortest_from v lo hi closed e10 (n + 1))"
  by pat_completeness auto
termination
  by (relation "measure (\<lambda>(v, lo, hi, closed, e10, n). nat (17 - n))") auto

declare shortest_from.simps [simp del]

definition shortest_digits :: "bool \<Rightarrow> int \<Rightarrow> int \<Rightarrow> float64" where
  "shortest_digits neg k0 p0 =
     (let k = (if k0 = 2 ^ 53 then 2 ^ 52 else k0);
          p = (if k0 = 2 ^ 53 then p0 + 1 else p0);
          v = scale 2 p (k, 1);
          lo = (if k = 2 ^ 52 \<and> - 1074 < p then scale 2 (p - 2) (4 * k - 1, 1)
                else scale 2 (p - 1) (2 * k - 1, 1));
          hi = scale 2 (p - 1) (2 * k + 1, 1);
          r = shortest_from v lo hi (even k) (floorlog 10 v) 1;
          ds = digits_of (fst r)
      in Float64 neg (strip_zeros ds) (snd r + int (length ds)))"

definition convertNumber :: "number \<Rightarrow> float64 option" where
  "convertNumber t =
     (let m = \<bar>n_mantissa t\<bar>
      in if m = 0 then Some (Float64 (n_neg t) [] 0)
         else (case nearest_float64 m (n_exponent t) of
                 None \<Rightarrow> None
               | Some kp \<Rightarrow>
                   if fst kp = 0 then Some (Float64 (n_neg t) [] 0)
                   else Some (shortest_digits (n_neg t) (fst kp) (snd kp))))"

subsection \<open>Decoding into \<^verbatim>\<open>interface{}\<close>\<close>

fun map_put :: "string \<Rightarrow> 'v \<Rightarrow> (string \<times> 'v) list \<Rightarrow> (string \<times> 'v) list" where
  "map_put k v [] = [(k, v)]"
| "map_put k v ((k', v') # m) =
     (if k = k' then (k, v) # m
      else if k < k' then (k, v) # (k', v') # m
      else (k', v') # map_put k v m)"

text \<open>
  The value that decoding into an \<^verbatim>\<open>interface{}\<close> builds. A number that
  \<^verbatim>\<open>convertNumber\<close> rejects leaves \<^verbatim>\<open>nil\<close> in its place; the decoder records the error and
  goes on.
\<close>

fun to_go :: "json \<Rightarrow> go_value"
  and to_go_list :: "json list \<Rightarrow> go_value list"
  and to_go_members :: "(string \<times> json) list \<Rightarrow> (string \<times> go_value) list
        \<Rightarrow> (string \<times> go_value) list" where
  "to_go JNull = GNil"
| "to_go (JBool b) = GBool b"
| "to_go (JNumber t) = (case convertNumber t of None \<Rightarrow> GNil | Some f \<Rightarrow> GFloat f)"
| "to_go (JString s) = GString s"
| "to_go (JArray xs) = GSlice (to_go_list xs)"
| "to_go (JObject kvs) = GMap (to_go_members kvs [])"
| "to_go_list [] = []"
| "to_go_list (x # xs) = to_go x # to_go_list xs"
| "to_go_members [] m = m"
| "to_go_members ((k, v) # kvs) m = to_go_members kvs (map_put k (to_go v) m)"

text \<open>Every number of the value is within the range of \<^verbatim>\<open>float64\<close>.\<close>

fun numbers_in_range :: "json \<Rightarrow> bool"
  and numbers_in_range_list :: "json list \<Rightarrow> bool"
  and numbers_in_range_members :: "(string \<times> json) list \<Rightarrow> bool" where
  "numbers_in_range JNull = True"
| "numbers_in_range (JBool b) = True"
| "numbers_in_range (JNumber t) = (convertNumber t \<noteq> None)"
| "numbers_in_range (JString s) = True"
| "numbers_in_range (JArray xs) = numbers_in_range_list xs"
| "numbers_in_range (JObject kvs) = numbers_in_range_members kvs"
| "numbers_in_range_list [] = True"
| "numbers_in_range_list (x # xs) = (numbers_in_range x \<and> numbers_in_range_list xs)"
| "numbers_in_range_members [] = True"
| "numbers_in_range_members ((k, v) # kvs) = (numbers_in_range v \<and> numbers_in_range_members kvs)"

text \<open>
  Decoding a member into a field of type \<^verbatim>\<open>interface{}\<close> that holds \<open>cur\<close>. A number out
  of range is the type error of \<^verbatim>\<open>convertNumber\<close> (which also names the literal, left out
  here): met as the member itself it leaves the field as it was, met inside an array or an
  object it is recorded while the value is stored.
\<close>

definition store_interface :: "json \<Rightarrow> go_value \<Rightarrow> go_value step" where
  "store_interface v cur =
     (if numbers_in_range v then Stored (to_go v)
      else (case v of
              JNumber t \<Rightarrow> Mismatch (UnmarshalTypeError ''number'' ''float64'') cur
            | _ \<Rightarrow> Mismatch (UnmarshalTypeError ''number'' ''float64'') (to_go v)))"

section \<open>order.go: line item properties\<close>

record NoteAttribute =
  Name :: string
  Value :: go_value

definition zero_NoteAttribute :: NoteAttribute where
  "zero_NoteAttribute = \<lparr>Name = [], Value = GNil\<rparr>"

text \<open>
  \<^verbatim>\<open>LineItem\<close>: the field the custom decoder writes, and \<open>li_rest\<close> for the other fields
  of the struct (\<^verbatim>\<open>ID\<close> \<dots> \<^verbatim>\<open>DiscountAllocations\<close>), which only the schema decode of
  the library writes. A slice is \<open>None\<close> when it is \<^verbatim>\<open>nil\<close>.
\<close>

record 'r LineItem =
  Properties :: "NoteAttribute list option"
  li_rest :: 'r

definition slice_elems :: "'a list option \<Rightarrow> 'a list" where
  "slice_elems s = (case s of None \<Rightarrow> [] | Some xs \<Rightarrow> xs)"

text \<open>The fields of \<^verbatim>\<open>NoteAttribute\<close>: \<^verbatim>\<open>name\<close> is a string, \<^verbatim>\<open>value\<close> an
  \<^verbatim>\<open>interface{}\<close>; any other key is skipped.\<close>

definition noteAttribute_field :: "string \<Rightarrow> json \<Rightarrow> NoteAttribute \<Rightarrow> NoteAttribute step" where
  "noteAttribute_field k v p =
     (if matchesField k ''name'' then
        (case v of
           JString s \<Rightarrow> Stored (p\<lparr>Name := s\<rparr>)
         | JNull \<Rightarrow> Stored p
         | _ \<Rightarrow> Mismatch (UnmarshalTypeError (kind v) ''string'') p)
      else if matchesField k ''value''
        then map_step (\<lambda>g. p\<lparr>Value := g\<rparr>) (store_interface v (Value p))
      else Stored p)"

definition decode_NoteAttribute ::
  "json \<Rightarrow> NoteAttribute \<Rightarrow> error option \<Rightarrow> error option \<times> NoteAttribute" where
  "decode_NoteAttribute v p saved =
     (case v of
        JNull \<Rightarrow> (saved, p)
      | JObject kvs \<Rightarrow> decode_members noteAttribute_field kvs saved p
      | _ \<Rightarrow> (saveError saved (UnmarshalTypeError (kind v) ''goshopify.NoteAttribute''), p))"

fun decode_elems :: "json list \<Rightarrow> error option \<Rightarrow> error option \<times> NoteAttribute list" where
  "decode_elems [] saved = (saved, [])"
| "decode_elems (x # xs) saved =
     (case decode_NoteAttribute x zero_NoteAttribute saved of
        (saved', p) \<Rightarrow> (case decode_elems xs saved' of (saved'', ps) \<Rightarrow> (saved'', p # ps)))"

text \<open>\<^verbatim>\<open>var p []NoteAttribute; err = json.Unmarshal(aux.Properties, &p)\<close>: an empty array
  gives an empty slice that is not \<^verbatim>\<open>nil\<close>.\<close>

definition unmarshal_NoteAttributes :: "json \<Rightarrow> error option \<times> NoteAttribute list option" where
  "unmarshal_NoteAttributes v =
     (case v of
        JNull \<Rightarrow> (None, None)
      | JArray xs \<Rightarrow> (case decode_elems xs None of (e, ps) \<Rightarrow> (e, Some ps))
      | _ \<Rightarrow> (Some (UnmarshalTypeError (kind v) ''[]goshopify.NoteAttribute''), None))"

text \<open>\<^verbatim>\<open>var p NoteAttribute; err = json.Unmarshal(aux.Properties, &p)\<close>\<close>

definition unmarshal_NoteAttribute :: "json \<Rightarrow> error option \<times> NoteAttribute" where
  "unmarshal_NoteAttribute v = decode_NoteAttribute v zero_NoteAttribute None"

text \<open>
  The auxiliary struct of \<^verbatim>\<open>LineItem.UnmarshalJSON\<close>: its own \<^verbatim>\<open>Properties\<close>
  (a \<^verbatim>\<open>json.RawMessage\<close>, \<open>None\<close> while empty) hides the field of the same name of the
  embedded alias, so a \<^verbatim>\<open>properties\<close> member is stored raw and every other member goes
  to the schema decode \<open>alias\<close> of the remaining fields.
\<close>

definition lineItem_aux_field ::
  "(string \<Rightarrow> json \<Rightarrow> 'r \<Rightarrow> 'r step) \<Rightarrow> string \<Rightarrow> json \<Rightarrow> json option \<times> 'r
    \<Rightarrow> (json option \<times> 'r) step" where
  "lineItem_aux_field alias k v s =
     (if matchesField k ''properties'' then Stored (Some v, snd s)
      else map_step (\<lambda>r. (fst s, r)) (alias k v (snd s)))"

text \<open>\<^verbatim>\<open>aux.Properties[0] == '['\<close>: the raw message starts at the first byte of the value,
  which is \<^verbatim>\<open>[\<close> for an array and for no other value.\<close>

fun first_is_bracket :: "json \<Rightarrow> bool" where
  "first_is_bracket (JArray xs) = True"
| "first_is_bracket v = False"

definition LineItem_UnmarshalJSON ::
  "(string \<Rightarrow> json \<Rightarrow> 'r \<Rightarrow> 'r step) \<Rightarrow> json option \<Rightarrow> 'r LineItem \<Rightarrow> 'r LineItem outcome" where
  "LineItem_UnmarshalJSON alias data li =
     (case unmarshal_struct ''struct { Properties json.RawMessage; *goshopify.alias }'' (lineItem_aux_field alias) data (None, li_rest li) of
        (Some err, None) \<Rightarrow> Return (Some err) li
      | (Some err, Some aux) \<Rightarrow> Return (Some err) (li\<lparr>li_rest := snd aux\<rparr>)
      | (None, None) \<Rightarrow> Panic
      | (None, Some aux) \<Rightarrow>
          (let li1 = li\<lparr>li_rest := snd aux\<rparr> in
           case fst aux of
             None \<Rightarrow> Return None li1
           | Some raw \<Rightarrow>
               if first_is_bracket raw then
                 (case unmarshal_NoteAttributes raw of
                    (Some err, p) \<Rightarrow> Return (Some err) li1
                  | (None, p) \<Rightarrow> Return None (li1\<lparr>Properties := p\<rparr>))
               else
                 (case unmarshal_NoteAttribute raw of
                    (Some err, p) \<Rightarrow> Return (Some err) li1
                  | (None, p) \<Rightarrow>
                      if Name p = [] \<and> Value p = GNil
                      then Return None (li1\<lparr>Properties := None\<rparr>)
                      else Return None (li1\<lparr>Properties := Some [p]\<rparr>))))"

text \<open>A schema decode that knows none of the keys: every member is skipped.\<close>

definition skip_field :: "string \<Rightarrow> json \<Rightarrow> 'r \<Rightarrow> 'r step" where
  "skip_field k v r = Stored r"

text \<open>The JSON object \<^verbatim>\<open>{"name": n, "value": v}\<close> and the \<^verbatim>\<open>NoteAttribute\<close> it stands for.\<close>

definition pair_json :: "string \<times> json \<Rightarrow> json" where
  "pair_json nv = JObject [(''name'', JString (fst nv)), (''value'', snd nv)]"

definition note_of :: "string \<times> json \<Rightarrow> NoteAttribute" where
  "note_of nv = \<lparr>Name = fst nv, Value = to_go (snd nv)\<rparr>"

section \<open>order.go: the requested fulfillment service of a shipping line\<close>

subsection \<open>\<^verbatim>\<open>fmt.Sprintf("%v", x)\<close>\<close>

definition digit_char :: "nat \<Rightarrow> char" where
  "digit_char n = char_of (48 + n)"

text \<open>\<^verbatim>\<open>%e\<close> of \<^verbatim>\<open>strconv\<close>: sign, first digit, point and \<open>prec\<close> further digits, exponent
  of at least two digits.\<close>

definition fmtE :: "bool \<Rightarrow> nat list \<Rightarrow> int \<Rightarrow> int \<Rightarrow> string" where
  "fmtE neg d dp prec =
     (let nd = int (length d);
          m = min nd (prec + 1);
          i = (if 1 < m then m else 1);
          exp = (if nd = 0 then 0 else dp - 1);
          e = nat \<bar>exp\<bar>
      in (if neg then ''-'' else [])
         @ [if nd \<noteq> 0 then digit_char (hd d) else CHR ''0'']
         @ (if 0 < prec
            then CHR ''.'' # map digit_char (take (nat (m - 1)) (drop 1 d))
                   @ replicate (nat (prec + 1 - i)) CHR ''0''
            else [])
         @ ''e''
         @ (if exp < 0 then ''-'' else ''+'')
         @ (if e < 10 then [CHR ''0'', digit_char e]
            else if e < 100 then [digit_char (e div 10), digit_char (e mod 10)]
            else [digit_char (e div 100), digit_char ((e div 10) mod 10), digit_char (e mod 10)]))"

text \<open>\<^verbatim>\<open>%f\<close> of \<^verbatim>\<open>strconv\<close>: sign, integer part padded with zeros, point and \<open>prec\<close>
  fraction digits.\<close>

definition fmtF :: "bool \<Rightarrow> nat list \<Rightarrow> int \<Rightarrow> int \<Rightarrow> string" where
  "fmtF neg d dp prec =
     (let nd = int (length d); m = min nd dp
      in (if neg then ''-'' else [])
         @ (if 0 < dp then map digit_char (take (nat m) d) @ replicate (nat (dp - m)) CHR ''0''
            else ''0'')
         @ (if 0 < prec
            then CHR ''.'' # map (\<lambda>i. let j = dp + int i in
                                    if 0 \<le> j \<and> j < nd then digit_char (d ! nat j) else CHR ''0'')
                                [0 ..< nat prec]
            else []))"

text \<open>
  \<^verbatim>\<open>%v\<close> on a \<^verbatim>\<open>float64\<close> is \<^verbatim>\<open>strconv.FormatFloat(f, 'g', -1, 64)\<close>: with the shortest
  digits the precision is their number, and \<^verbatim>\<open>%e\<close> is chosen when the decimal exponent is
  below \<open>-4\<close> or at least \<open>6\<close> (the value \<^verbatim>\<open>eprec\<close> takes for the shortest formatting).
\<close>

definition formatFloat_g :: "float64 \<Rightarrow> string" where
  "formatFloat_g f =
     (let nd = int (length (f_d f)); prec = nd; eprec = 6; exp = f_dp f - 1
      in if exp < - 4 \<or> eprec \<le> exp then fmtE (f_neg f) (f_d f) (f_dp f) (prec - 1)
         else fmtF (f_neg f) (f_d f) (f_dp f) (max (prec - f_dp f) 0))"

fun joinWith :: "string \<Rightarrow> string list \<Rightarrow> string" where
  "joinWith sep [] = []"
| "joinWith sep [x] = x"
| "joinWith sep (x # y # ys) = x @ sep @ joinWith sep (y # ys)"

fun sprintf_v :: "go_value \<Rightarrow> string"
  and sprintf_elems :: "go_value list \<Rightarrow> string list"
  and sprintf_entries :: "(string \<times> go_value) list \<Rightarrow> string list" where
  "sprintf_v GNil = ''<nil>''"
| "sprintf_v (GBool b) = (if b then ''true'' else ''false'')"
| "sprintf_v (GFloat f) = formatFloat_g f"
| "sprintf_v (GString s) = s"
| "sprintf_v (GSlice xs) = ''['' @ joinWith '' '' (sprintf_elems xs) @ '']''"
| "sprintf_v (GMap m) = ''map['' @ joinWith '' '' (sprintf_entries m) @ '']''"
| "sprintf_elems [] = []"
| "sprintf_elems (x # xs) = sprintf_v x # sprintf_elems xs"
| "sprintf_entries [] = []"
| "sprintf_entries ((k, v) # m) = (k @ '':'' @ sprintf_v v) # sprintf_entries m"

subsection \<open>\<^verbatim>\<open>ShippingLines.UnmarshalJSON\<close>\<close>

text \<open>\<^verbatim>\<open>ShippingLines\<close>: the field the custom decoder writes, and \<open>sl_rest\<close> for the other
  fields of the struct.\<close>

record 'r ShippingLines =
  RequestedFulfillmentServiceID :: string
  sl_rest :: 'r

text \<open>The auxiliary struct: its \<^verbatim>\<open>RequestedFulfillmentServiceID interface{}\<close> hides the
  string field of the embedded alias.\<close>

definition shippingLines_aux_field ::
  "(string \<Rightarrow> json \<Rightarrow> 'r \<Rightarrow> 'r step) \<Rightarrow> string \<Rightarrow> json \<Rightarrow> go_value \<times> 'r
    \<Rightarrow> (go_value \<times> 'r) step" where
  "shippingLines_aux_field alias k v s =
     (if matchesField k ''requested_fulfillment_service_id''
        then map_step (\<lambda>g. (g, snd s)) (store_interface v (fst s))
      else map_step (\<lambda>r. (fst s, r)) (alias k v (snd s)))"

definition ShippingLines_UnmarshalJSON ::
  "(string \<Rightarrow> json \<Rightarrow> 'r \<Rightarrow> 'r step) \<Rightarrow> json option \<Rightarrow> 'r ShippingLines
    \<Rightarrow> 'r ShippingLines outcome" where
  "ShippingLines_UnmarshalJSON alias data sl =
     (case unmarshal_struct ''struct { *goshopify.alias; RequestedFulfillmentServiceID interface {} }'' (shippingLines_aux_field alias) data
             (GNil, sl_rest sl) of
        (Some err, None) \<Rightarrow> Return (Some err) sl
      | (Some err, Some aux) \<Rightarrow> Return (Some err) (sl\<lparr>sl_rest := snd aux\<rparr>)
      | (None, None) \<Rightarrow> Panic
      | (None, Some aux) \<Rightarrow>
          Return None (sl\<lparr>sl_rest := snd aux,
            RequestedFulfillmentServiceID :=
              (case fst aux of GNil \<Rightarrow> [] | _ \<Rightarrow> sprintf_v (fst aux))\<rparr>))"

text \<open>The \<^verbatim>\<open>float64\<close> of an integer below \<open>2 ^ 53\<close> in absolute value: such an integer is
  a \<^verbatim>\<open>float64\<close>, and its shortest digits are its decimal digits without the trailing
  zeros.\<close>

definition float64_of_int :: "int \<Rightarrow> float64" where
  "float64_of_int n =
     (if n = 0 then Float64 False [] 0
      else Float64 (n < 0) (strip_zeros (digits_of \<bar>n\<bar>)) (int (length (digits_of \<bar>n\<bar>))))"

text \<open>The decimal rendering of an integer.\<close>

definition decimal_string :: "int \<Rightarrow> string" where
  "decimal_string n = (if n < 0 then ''-'' else []) @ map digit_char (digits_of \<bar>n\<bar>)"

section \<open>The recurring application charge: flexible timestamps\<close>

subsection \<open>\<^verbatim>\<open>time.Parse\<close> on the two layouts the package uses\<close>

text \<open>
  A \<^verbatim>\<open>time.Time\<close> as \<^verbatim>\<open>time.Parse\<close> builds it: the date and the clock it read, and the
  location, which is \<^verbatim>\<open>UTC\<close> or a zone at a fixed offset (seconds east of UTC). Where the
  local zone of the machine has the offset read, the library attaches that zone instead of a
  fixed one; the instant and the offset are the same.
\<close>

datatype location = UTC | FixedZone int

record Time =
  t_year :: nat
  t_month :: nat
  t_day :: nat
  t_hour :: nat
  t_min :: nat
  t_sec :: nat
  t_nsec :: int
  t_loc :: location

datatype layout = RFC3339 | DateOnly

fun layout_text :: "layout \<Rightarrow> string" where
  "layout_text RFC3339 = ''2006-01-02T15:04:05Z07:00''"
| "layout_text DateOnly = ''2006-01-02''"

definition isDigit :: "char \<Rightarrow> bool" where
  "isDigit c = (48 \<le> (of_char c :: nat) \<and> (of_char c :: nat) \<le> 57)"

definition digit_val :: "char \<Rightarrow> nat" where
  "digit_val c = of_char c - 48"

text \<open>\<^verbatim>\<open>getnum\<close>: one or two digits; two are required when \<open>fixed\<close>.\<close>

fun getnum :: "bool \<Rightarrow> string \<Rightarrow> (nat \<times> string) option" where
  "getnum fixed [] = None"
| "getnum fixed [c] =
     (if isDigit c \<and> \<not> fixed then Some (digit_val c, []) else None)"
| "getnum fixed (c1 # c2 # rest) =
     (if \<not> isDigit c1 then None
      else if \<not> isDigit c2 then (if fixed then None else Some (digit_val c1, c2 # rest))
      else Some (digit_val c1 * 10 + digit_val c2, rest))"

text \<open>The year of the layout element \<^verbatim>\<open>2006\<close>: exactly four digits.\<close>

fun getyear :: "string \<Rightarrow> (nat \<times> string) option" where
  "getyear (a # b # c # d # rest) =
     (if isDigit a \<and> isDigit b \<and> isDigit c \<and> isDigit d
      then Some (digit_val a * 1000 + digit_val b * 100 + digit_val c * 10 + digit_val d, rest)
      else None)"
| "getyear s = None"

text \<open>A literal character of the layout.\<close>

fun skip :: "char \<Rightarrow> string \<Rightarrow> string option" where
  "skip c [] = None"
| "skip c (x # rest) = (if x = c then Some rest else None)"

definition isLeap :: "nat \<Rightarrow> bool" where
  "isLeap y = (y mod 4 = 0 \<and> (y mod 100 \<noteq> 0 \<or> y mod 400 = 0))"

definition daysIn :: "nat \<Rightarrow> nat \<Rightarrow> nat" where
  "daysIn m y =
     (if m = 2 then (if isLeap y then 29 else 28)
      else if m = 4 \<or> m = 6 \<or> m = 9 \<or> m = 11 then 30
      else 31)"

text \<open>
  A fraction of a second after the seconds, which the layout does not mention but the parser
  accepts: a point or a comma and digits, of which the first nine count.
\<close>

definition parseNanoseconds :: "string \<Rightarrow> int" where
  "parseNanoseconds ds =
     (let ds9 = take 9 ds
      in foldl (\<lambda>n c. n * 10 + int (digit_val c)) 0 ds9 * 10 ^ (9 - length ds9))"

fun getfraction :: "string \<Rightarrow> int \<times> string" where
  "getfraction (p # c # rest) =
     (if (p = CHR ''.'' \<or> p = CHR '','') \<and> isDigit c
      then (parseNanoseconds (takeWhile isDigit (c # rest)), dropWhile isDigit (c # rest))
      else (0, p # c # rest))"
| "getfraction s = (0, s)"

text \<open>The zone of the layout element \<^verbatim>\<open>Z07:00\<close>: \<^verbatim>\<open>Z\<close>, or a sign, hours, a colon and
  minutes.\<close>

fun getzone :: "string \<Rightarrow> (location \<times> string) option" where
  "getzone [] = None"
| "getzone (z # rest) =
     (if z = CHR ''Z'' then Some (UTC, rest)
      else (case rest of
              h1 # h2 # c # m1 # m2 # rest' \<Rightarrow>
                (if c \<noteq> CHR '':'' then None
                 else (case (getnum True [h1, h2], getnum True [m1, m2]) of
                         (Some (hr, _), Some (mm, _)) \<Rightarrow>
                           (if 24 < hr \<or> 60 < mm then None
                            else if z = CHR ''+'' then Some (FixedZone (int ((hr * 60 + mm) * 60)), rest')
                            else if z = CHR ''-'' then Some (FixedZone (- int ((hr * 60 + mm) * 60)), rest')
                            else None)
                       | _ \<Rightarrow> None))
            | _ \<Rightarrow> None))"

text \<open>The date of both layouts: \<^verbatim>\<open>2006-01-02\<close>.\<close>

definition getdate :: "string \<Rightarrow> ((nat \<times> nat \<times> nat) \<times> string) option" where
  "getdate s =
     (case getyear s of None \<Rightarrow> None | Some (y, s1) \<Rightarrow>
      case skip CHR ''-'' s1 of None \<Rightarrow> None | Some s2 \<Rightarrow>
      case getnum True s2 of None \<Rightarrow> None | Some (m, s3) \<Rightarrow>
      if m = 0 \<or> 12 < m then None else
      case skip CHR ''-'' s3 of None \<Rightarrow> None | Some s4 \<Rightarrow>
      case getnum True s4 of None \<Rightarrow> None | Some (d, s5) \<Rightarrow>
      Some ((y, m, d), s5))"

text \<open>The clock of the layout \<^verbatim>\<open>T15:04:05\<close>: the hour may have one digit.\<close>

definition getclock :: "string \<Rightarrow> ((nat \<times> nat \<times> nat \<times> int) \<times> string) option" where
  "getclock s =
     (case skip CHR ''T'' s of None \<Rightarrow> None | Some s1 \<Rightarrow>
      case getnum False s1 of None \<Rightarrow> None | Some (h, s2) \<Rightarrow>
      if 24 \<le> h then None else
      case skip CHR '':'' s2 of None \<Rightarrow> None | Some s3 \<Rightarrow>
      case getnum True s3 of None \<Rightarrow> None | Some (mi, s4) \<Rightarrow>
      if 60 \<le> mi then None else
      case skip CHR '':'' s4 of None \<Rightarrow> None | Some s5 \<Rightarrow>
      case getnum True s5 of None \<Rightarrow> None | Some (sec, s6) \<Rightarrow>
      if 60 \<le> sec then None else
      case getfraction s6 of (ns, s7) \<Rightarrow> Some ((h, mi, sec, ns), s7))"

text \<open>The elements of the layout in turn, then no text may be left over and the day must
  exist in its month.\<close>

definition parse_layout :: "layout \<Rightarrow> string \<Rightarrow> Time option" where
  "parse_layout l s =
     (case getdate s of None \<Rightarrow> None | Some ((y, m, d), s1) \<Rightarrow>
      case l of
        DateOnly \<Rightarrow>
          if s1 \<noteq> [] \<or> d < 1 \<or> daysIn m y < d then None
          else Some \<lparr>t_year = y, t_month = m, t_day = d, t_hour = 0, t_min = 0, t_sec = 0,
                     t_nsec = 0, t_loc = UTC\<rparr>
      | RFC3339 \<Rightarrow>
          (case getclock s1 of None \<Rightarrow> None | Some ((h, mi, sec, ns), s2) \<Rightarrow>
           case getzone s2 of None \<Rightarrow> None | Some (z, s3) \<Rightarrow>
           if s3 \<noteq> [] \<or> d < 1 \<or> daysIn m y < d then None
           else Some \<lparr>t_year = y, t_month = m, t_day = d, t_hour = h, t_min = mi, t_sec = sec,
                      t_nsec = ns, t_loc = z\<rparr>))"

text \<open>\<^verbatim>\<open>time.Parse(layout, value)\<close>: every failure is a \<^verbatim>\<open>*time.ParseError\<close>, which holds
  the layout and the whole value (its further fields, the element that failed and the
  message, are left out).\<close>

definition time_Parse :: "layout \<Rightarrow> string \<Rightarrow> error + Time" where
  "time_Parse l s =
     (case parse_layout l s of
        None \<Rightarrow> Inl (ParseError (layout_text l) s)
      | Some t \<Rightarrow> Inr t)"

subsection \<open>\<^verbatim>\<open>parse\<close>\<close>

text \<open>\<^verbatim>\<open>func parse(dest **time.Time, data *string) error\<close>: the result is the error and
  what \<^verbatim>\<open>*dest\<close> holds afterwards.\<close>

definition parse :: "Time option \<Rightarrow> string option \<Rightarrow> error option \<times> Time option" where
  "parse dest data =
     (case data of
        None \<Rightarrow> (None, dest)
      | Some s \<Rightarrow>
          (let format = (if length s = 10 then DateOnly else RFC3339)
           in case time_Parse format s of
                Inl err \<Rightarrow> (Some err, dest)
              | Inr t \<Rightarrow> (None, Some t)))"

subsection \<open>\<^verbatim>\<open>RecurringApplicationCharge.UnmarshalJSON\<close>\<close>

text \<open>\<^verbatim>\<open>RecurringApplicationCharge\<close>: the field the custom decoder writes, and \<open>rac_rest\<close>
  for the thirteen other fields of the struct (\<^verbatim>\<open>ConfirmationURL\<close> \<dots> \<^verbatim>\<open>Test\<close>).\<close>

record 'r RecurringApplicationCharge =
  UpdatedAt :: "Time option"
  rac_rest :: 'r

text \<open>The auxiliary struct: six \<^verbatim>\<open>*string\<close> fields and the embedded alias, whose
  \<^verbatim>\<open>UpdatedAt\<close> the field of the same name hides.\<close>

record 'r rac_aux =
  aux_ActivatedOn :: "string option"
  aux_BillingOn :: "string option"
  aux_CancelledOn :: "string option"
  aux_CreatedAt :: "string option"
  aux_TrialEndsOn :: "string option"
  aux_UpdatedAt :: "string option"
  aux_alias :: 'r

text \<open>Decoding into a \<^verbatim>\<open>*string\<close>: \<^verbatim>\<open>null\<close> clears the pointer, a string sets it, and any
  other value is a type error that leaves an allocated pointer behind.\<close>

definition decode_string_ptr :: "json \<Rightarrow> string option \<Rightarrow> string option step" where
  "decode_string_ptr v cur =
     (case v of
        JNull \<Rightarrow> Stored None
      | JString s \<Rightarrow> Stored (Some s)
      | _ \<Rightarrow> Mismatch (UnmarshalTypeError (kind v) ''string'')
               (case cur of None \<Rightarrow> Some [] | Some s \<Rightarrow> Some s))"

definition rac_aux_field ::
  "(string \<Rightarrow> json \<Rightarrow> 'r \<Rightarrow> 'r step) \<Rightarrow> string \<Rightarrow> json \<Rightarrow> 'r rac_aux \<Rightarrow> 'r rac_aux step" where
  "rac_aux_field alias k v a =
     (if matchesField k ''activated_on''
        then map_step (\<lambda>x. a\<lparr>aux_ActivatedOn := x\<rparr>) (decode_string_ptr v (aux_ActivatedOn a))
      else if matchesField k ''billing_on''
        then map_step (\<lambda>x. a\<lparr>aux_BillingOn := x\<rparr>) (decode_string_ptr v (aux_BillingOn a))
      else if matchesField k ''cancelled_on''
        then map_step (\<lambda>x. a\<lparr>aux_CancelledOn := x\<rparr>) (decode_string_ptr v (aux_CancelledOn a))
      else if matchesField k ''created_at''
        then map_step (\<lambda>x. a\<lparr>aux_CreatedAt := x\<rparr>) (decode_string_ptr v (aux_CreatedAt a))
      else if matchesField k ''trial_ends_on''
        then map_step (\<lambda>x. a\<lparr>aux_TrialEndsOn := x\<rparr>) (decode_string_ptr v (aux_TrialEndsOn a))
      else if matchesField k ''updated_at''
        then map_step (\<lambda>x. a\<lparr>aux_UpdatedAt := x\<rparr>) (decode_string_ptr v (aux_UpdatedAt a))
      else map_step (\<lambda>r. a\<lparr>aux_alias := r\<rparr>) (alias k v (aux_alias a)))"

definition rac_aux_init :: "'r \<Rightarrow> 'r rac_aux" where
  "rac_aux_init r =
     \<lparr>aux_ActivatedOn = None, aux_BillingOn = None, aux_CancelledOn = None, aux_CreatedAt = None,
      aux_TrialEndsOn = None, aux_UpdatedAt = None, aux_alias = r\<rparr>"

definition RecurringApplicationCharge_UnmarshalJSON ::
  "(string \<Rightarrow> json \<Rightarrow> 'r \<Rightarrow> 'r step) \<Rightarrow> json option \<Rightarrow> 'r RecurringApplicationCharge
    \<Rightarrow> 'r RecurringApplicationCharge outcome" where
  "RecurringApplicationCharge_UnmarshalJSON alias data r =
     (case unmarshal_struct ''struct { ActivatedOn *string; ...; *goshopify.alias }'' (rac_aux_field alias) data
             (rac_aux_init (rac_rest r)) of
        (Some err, None) \<Rightarrow> Return (Some err) r
      | (Some err, Some aux) \<Rightarrow> Return (Some err) (r\<lparr>rac_rest := aux_alias aux\<rparr>)
      | (None, None) \<Rightarrow> Panic
      | (None, Some aux) \<Rightarrow>
          (let r1 = r\<lparr>rac_rest := aux_alias aux\<rparr>
           in case parse (UpdatedAt r1) (aux_UpdatedAt aux) of
                (Some err, dest) \<Rightarrow> Return (Some err) (r1\<lparr>UpdatedAt := dest\<rparr>)
              | (None, dest) \<Rightarrow> Return None (r1\<lparr>UpdatedAt := dest\<rparr>)))"

text \<open>The names of the five date fields that only the auxiliary struct has.\<close>

definition discarded_names :: "string list" where
  "discarded_names = [''activated_on'', ''billing_on'', ''cancelled_on'', ''created_at'', ''trial_ends_on'']"

definition is_discarded :: "string \<Rightarrow> bool" where
  "is_discarded k = list_ex (matchesField k) discarded_names"

text \<open>The payload with the text of every string in one of these five fields replaced
  by \<open>txt\<close>.\<close>

fun replace_discarded :: "string \<Rightarrow> (string \<times> json) list \<Rightarrow> (string \<times> json) list" where
  "replace_discarded txt [] = []"
| "replace_discarded txt ((k, v) # kvs) =
     (case v of
        JString s \<Rightarrow> (k, if is_discarded k then JString txt else JString s) # replace_discarded txt kvs
      | _ \<Rightarrow> (k, v) # replace_discarded txt kvs)"

text \<open>The members of the payload that reach the schema decode of the alias.\<close>

definition schema_members :: "(string \<times> json) list \<Rightarrow> (string \<times> json) list" where
  "schema_members kvs =
     filter (\<lambda>kv. \<not> is_discarded (fst kv) \<and> \<not> matchesField (fst kv) ''updated_at'') kvs"







section \<open>order.go: listing orders with pagination\<close>

text \<open>
  Modelled from the spec: the pagination type and \<^verbatim>\<open>extractPagination\<close>, which
  \<^verbatim>\<open>ListWithPagination\<close> uses and whose source is not among the files of the package at
  hand. The definitions up to \<open>extractPagination\<close> follow section 4.2 of the specification.

  The cursor pair: the page token of the next and of the previous page, each present or
  absent.
\<close>

record Pagination =
  pg_next :: "string option"
  pg_previous :: "string option"

definition no_pagination :: Pagination where
  "no_pagination = \<lparr>pg_next = None, pg_previous = None\<rparr>"

fun split :: "char \<Rightarrow> string \<Rightarrow> string list" where
  "split c [] = [[]]"
| "split c (x # xs) =
     (if x = c then [] # split c xs
      else (case split c xs of [] \<Rightarrow> [[x]] | ys # yss \<Rightarrow> (x # ys) # yss))"

definition trim :: "string \<Rightarrow> string" where
  "trim s = rev (dropWhile (\<lambda>c. c = CHR '' '') (rev (dropWhile (\<lambda>c. c = CHR '' '') s)))"

text \<open>The page token of a URL: the value of the query parameter \<^verbatim>\<open>page_info\<close>.\<close>

fun find_param :: "string \<Rightarrow> string list \<Rightarrow> string option" where
  "find_param name [] = None"
| "find_param name (p # ps) =
     (if take (length name + 1) p = name @ ''='' then Some (drop (length name + 1) p)
      else find_param name ps)"

definition page_token :: "string \<Rightarrow> string option" where
  "page_token url =
     (case dropWhile (\<lambda>c. c \<noteq> CHR ''?'') url of
        [] \<Rightarrow> None
      | q # query \<Rightarrow>
          (case find_param ''page_info'' (split CHR ''&'' query) of
             None \<Rightarrow> None
           | Some t \<Rightarrow> if t = [] then None else Some t))"

text \<open>One entry of the header, \<^verbatim>\<open><url>; rel="next"\<close>: the relation (\<open>True\<close> for
  \<^verbatim>\<open>next\<close>) and the page token, or nothing for a relation that is neither \<^verbatim>\<open>next\<close> nor
  \<^verbatim>\<open>previous\<close>.\<close>

definition parse_entry :: "string \<Rightarrow> error + (bool \<times> string) option" where
  "parse_entry e =
     (case split CHR '';'' e of
        [u, a] \<Rightarrow>
          (let url = trim u; rel = trim a
           in if length url < 2 \<or> hd url \<noteq> CHR ''<'' \<or> last url \<noteq> CHR ''>''
              then Inl MalformedPaginationError
              else if rel = ''rel=\"next\"'' \<or> rel = ''rel=\"previous\"''
              then (case page_token (butlast (tl url)) of
                      None \<Rightarrow> Inl MalformedPaginationError
                    | Some t \<Rightarrow> Inr (Some (rel = ''rel=\"next\"'', t)))
              else Inr None)
      | _ \<Rightarrow> Inl MalformedPaginationError)"

fun extract_entries :: "string list \<Rightarrow> Pagination \<Rightarrow> error + Pagination" where
  "extract_entries [] pg = Inr pg"
| "extract_entries (e # es) pg =
     (case parse_entry e of
        Inl err \<Rightarrow> Inl err
      | Inr None \<Rightarrow> extract_entries es pg
      | Inr (Some (is_next, t)) \<Rightarrow>
          extract_entries es (if is_next then pg\<lparr>pg_next := Some t\<rparr> else pg\<lparr>pg_previous := Some t\<rparr>))"

text \<open>
  Modelled from the spec: \<^verbatim>\<open>extractPagination\<close>, which \<^verbatim>\<open>ListWithPagination\<close> calls and
  whose source is not among the files of the package at hand. An empty header is an empty
  cursor pair and no error; otherwise the header is split on commas, each entry on the
  semicolon between the URL in angle brackets and the relation, and an entry without its
  delimiters or without its page token is an error.
\<close>

definition extractPagination :: "string \<Rightarrow> error + Pagination" where
  "extractPagination linkHeader =
     (if linkHeader = [] then Inr no_pagination
      else extract_entries (split CHR '','' linkHeader) no_pagination)"

text \<open>\<^verbatim>\<open>headers.Get("Link")\<close>: the first value stored for the key, the empty string when
  there is none.\<close>

definition header_Get :: "(string \<rightharpoonup> string list) \<Rightarrow> string \<Rightarrow> string" where
  "header_Get h k = (case h k of None \<Rightarrow> [] | Some [] \<Rightarrow> [] | Some (v # vs) \<Rightarrow> v)"

text \<open>
  \<^verbatim>\<open>ListWithPagination\<close>: \<open>response\<close> is what \<^verbatim>\<open>createAndDoGetHeaders\<close> returned, an error
  or the headers of the response together with the orders decoded from its body.
\<close>

definition ListWithPagination ::
  "error + (string \<rightharpoonup> string list) \<times> 'o list \<Rightarrow> error + 'o list \<times> Pagination" where
  "ListWithPagination response =
     (case response of
        Inl err \<Rightarrow> Inl err
      | Inr (headers, orders) \<Rightarrow>
          (case extractPagination (header_Get headers ''Link'') of
             Inl err \<Rightarrow> Inl err
           | Inr pagination \<Rightarrow> Inr (orders, pagination)))"

section \<open>Properties of the decoders of order.go\<close>

subsection \<open>The first decode: one field of the auxiliary struct beside the schema decode\<close>

lemma saved_error_stays: "fst (decode_members f kvs (Some e) s) \<noteq> None"
  by (induction kvs arbitrary: s e) (auto simp: saveError_def split: step.splits)

text \<open>
  Both auxiliary structs of order.go have one field of their own, \<open>name\<close>, which stores
  \<open>g v\<close> for its member \<open>v\<close>, and hand every other member to the alias. The error and the
  fields of the alias are then those of the schema decode of the other members, and without
  an error the own field holds the last member of that name.
\<close>

lemma own_members_err:
  assumes "\<And>k v x r. f k v (x, r) =
      (if matchesField k name then Stored (g v, r) else map_step (\<lambda>r'. (x, r')) (dec k v r))"
  shows "fst (decode_members f kvs saved (x, r)) =
         fst (decode_members dec (other_members name kvs) saved r)"
proof (induction kvs arbitrary: saved x r)
  case Nil
  then show ?case by (simp add: other_members_def)
next
  case (Cons kv kvs)
  obtain k v where kv: "kv = (k, v)" by (cases kv)
  show ?case
  proof (cases "matchesField k name")
    case True
    then show ?thesis using Cons.IH [of saved "g v" r]
      by (simp add: kv other_members_def assms)
  next
    case False
    then show ?thesis using Cons.IH
      by (cases "dec k v r") (simp_all add: kv other_members_def assms)
  qed
qed

lemma own_members_rest:
  assumes "\<And>k v x r. f k v (x, r) =
      (if matchesField k name then Stored (g v, r) else map_step (\<lambda>r'. (x, r')) (dec k v r))"
  shows "snd (snd (decode_members f kvs saved (x, r))) =
         snd (decode_members dec (other_members name kvs) saved r)"
proof (induction kvs arbitrary: saved x r)
  case Nil
  then show ?case by (simp add: other_members_def)
next
  case (Cons kv kvs)
  obtain k v where kv: "kv = (k, v)" by (cases kv)
  show ?case
  proof (cases "matchesField k name")
    case True
    then show ?thesis using Cons.IH [of saved "g v" r]
      by (simp add: kv other_members_def assms)
  next
    case False
    then show ?thesis using Cons.IH
      by (cases "dec k v r") (simp_all add: kv other_members_def assms)
  qed
qed

lemma own_members_raw:
  assumes "\<And>k v x r. f k v (x, r) =
      (if matchesField k name then Stored (g v, r) else map_step (\<lambda>r'. (x, r')) (dec k v r))"
    and "fst (decode_members dec (other_members name kvs) saved r) = None"
  shows "fst (snd (decode_members f kvs saved (x, r))) =
         (case raw_field name kvs of None \<Rightarrow> x | Some v \<Rightarrow> g v)"
  using assms(2)
proof (induction kvs arbitrary: saved x r)
  case Nil
  then show ?case by simp
next
  case (Cons kv kvs)
  obtain k v where kv: "kv = (k, v)" by (cases kv)
  show ?case
  proof (cases "matchesField k name")
    case True
    then show ?thesis using Cons.IH [of saved r "g v"] Cons.prems
      by (simp add: kv other_members_def assms(1) split: option.splits)
  next
    case False
    note nm = this
    show ?thesis
    proof (cases "dec k v r")
      case (Stored r1)
      then show ?thesis using nm Cons.IH [of saved r1 x] Cons.prems
        by (simp add: kv other_members_def assms(1) split: option.splits)
    next
      case (Mismatch e r1)
      then show ?thesis using nm Cons.IH [of "saveError saved e" r1 x] Cons.prems
        by (simp add: kv other_members_def assms(1) split: option.splits)
    next
      case (Abort e r1)
      then show ?thesis using nm Cons.prems
        by (simp add: kv other_members_def assms(1))
    qed
  qed
qed

lemma own_unmarshal_ok:
  assumes "\<And>k v x r. f k v (x, r) =
      (if matchesField k name then Stored (g v, r) else map_step (\<lambda>r'. (x, r')) (dec k v r))"
    and "decode_members dec (other_members name kvs) None r = (None, r')"
  shows "unmarshal_struct ty f (Some (JObject kvs)) (x, r) =
         (None, Some (case raw_field name kvs of None \<Rightarrow> x | Some v \<Rightarrow> g v, r'))"
proof -
  obtain e y r2 where d: "decode_members f kvs None (x, r) = (e, y, r2)"
    by (metis prod_cases3)
  have "e = None" using own_members_err [where f = f and name = name and g = g and dec = dec, OF assms(1),
      where kvs = kvs and saved = None and x = x and r = r] assms(2) d by simp
  moreover have "r2 = r'" using own_members_rest [where f = f and name = name and g = g and dec = dec, OF assms(1),
      where kvs = kvs and saved = None and x = x and r = r] assms(2) d by simp
  moreover have "y = (case raw_field name kvs of None \<Rightarrow> x | Some v \<Rightarrow> g v)"
    using own_members_raw [where f = f and name = name and g = g and dec = dec, OF assms(1),
      where kvs = kvs and saved = None and x = x and r = r] assms(2) d by simp
  ultimately show ?thesis using d by (simp add: unmarshal_struct_def)
qed

lemma first_unmarshal_ok:
  assumes "decode_members alias (other_members ''properties'' kvs) None r = (None, r')"
  shows "unmarshal_struct ty (lineItem_aux_field alias) (Some (JObject kvs)) (None, r) =
         (None, Some (raw_field ''properties'' kvs, r'))"
proof -
  have "unmarshal_struct ty (lineItem_aux_field alias) (Some (JObject kvs)) (None, r) =
      (None, Some (case raw_field ''properties'' kvs of None \<Rightarrow> None | Some v \<Rightarrow> Some v, r'))"
    by (rule own_unmarshal_ok [where f = "lineItem_aux_field alias" and g = Some and dec = "alias",
          OF _ assms])
      (simp add: lineItem_aux_field_def)
  then show ?thesis by (simp split: option.splits)
qed

text \<open>Two field functions that agree on the members of an object decode it alike.\<close>

lemma decode_members_cong:
  assumes "\<And>k v s. (k, v) \<in> set kvs \<Longrightarrow> f k v s = f' k v s"
  shows "decode_members f kvs saved s = decode_members f' kvs saved s"
  using assms
proof (induction kvs arbitrary: saved s)
  case Nil
  show ?case by simp
next
  case (Cons kv kvs)
  obtain k v where kv: "kv = (k, v)" by (cases kv)
  have h: "f k v s = f' k v s" using Cons.prems kv by simp
  have t: "\<And>saved s. decode_members f kvs saved s = decode_members f' kvs saved s"
    using Cons.IH Cons.prems by simp
  show ?case unfolding kv by (simp add: h t split: step.splits)
qed

text \<open>A member stored in an \<^verbatim>\<open>interface{}\<close>: without an error when its numbers are in the
  range of \<^verbatim>\<open>float64\<close>, with the type error of \<^verbatim>\<open>convertNumber\<close> otherwise.\<close>

lemma store_in_range: "numbers_in_range v \<Longrightarrow> store_interface v cur = Stored (to_go v)"
  by (simp add: store_interface_def)

lemma store_out_of_range:
  assumes "\<not> numbers_in_range v"
  shows "store_interface v GNil = Mismatch (UnmarshalTypeError ''number'' ''float64'') (to_go v)"
proof (cases v)
  case (JNumber t)
  then have "convertNumber t = None" using assms by simp
  then show ?thesis using assms JNumber by (simp add: store_interface_def)
qed (use assms in \<open>simp_all add: store_interface_def\<close>)

lemma shipping_unmarshal_ok:
  assumes "decode_members alias (other_members ''requested_fulfillment_service_id'' kvs) None r =
           (None, r')"
    and "\<And>k v. (k, v) \<in> set kvs \<Longrightarrow> matchesField k ''requested_fulfillment_service_id''
           \<Longrightarrow> numbers_in_range v"
  shows "unmarshal_struct ty (shippingLines_aux_field alias) (Some (JObject kvs)) (GNil, r) =
         (None, Some (case raw_field ''requested_fulfillment_service_id'' kvs of
                        None \<Rightarrow> GNil | Some v \<Rightarrow> to_go v, r'))"
proof -
  define f where "f = (\<lambda>k v (s :: go_value \<times> 'a).
      if matchesField k ''requested_fulfillment_service_id'' then Stored (to_go v, snd s)
      else map_step (\<lambda>r. (fst s, r)) (alias k v (snd s)))"
  have "decode_members (shippingLines_aux_field alias) kvs None (GNil, r) =
        decode_members f kvs None (GNil, r)"
    by (rule decode_members_cong)
      (simp add: f_def shippingLines_aux_field_def store_in_range assms(2))
  then have "unmarshal_struct ty (shippingLines_aux_field alias) (Some (JObject kvs)) (GNil, r) =
        unmarshal_struct ty f (Some (JObject kvs)) (GNil, r)"
    by (simp add: unmarshal_struct_def)
  also have "\<dots> = (None, Some (case raw_field ''requested_fulfillment_service_id'' kvs of
                        None \<Rightarrow> GNil | Some v \<Rightarrow> to_go v, r'))"
    by (rule own_unmarshal_ok [where f = f and g = to_go and dec = "alias", OF _ assms(1)])
      (simp add: f_def)
  finally show ?thesis .
qed

subsection \<open>Line item properties\<close>

lemma name_is_name: "matchesField ''name'' ''name''" by (simp add: matchesField_def)
lemma value_is_value: "matchesField ''value'' ''value''" by (simp add: matchesField_def)
lemma value_not_name: "\<not> matchesField ''value'' ''name''" unfolding matchesField_def by code_simp

text \<open>The object \<^verbatim>\<open>{"name": n, "value": v}\<close> decodes to its pair; a number of \<open>v\<close> out of
  range is recorded as an error.\<close>

lemma decode_pair:
  "decode_NoteAttribute (pair_json nv) zero_NoteAttribute saved =
     (if numbers_in_range (snd nv) then saved
      else saveError saved (UnmarshalTypeError ''number'' ''float64''), note_of nv)"
  by (simp add: decode_NoteAttribute_def pair_json_def note_of_def noteAttribute_field_def
      name_is_name value_is_value value_not_name zero_NoteAttribute_def store_in_range
      store_out_of_range)

lemma saveError_twice: "saveError (saveError saved e) e = saveError saved e"
  by (simp add: saveError_def split: option.splits)

lemma decode_pairs:
  "decode_elems (map pair_json ps) saved =
     (if \<forall>nv \<in> set ps. numbers_in_range (snd nv) then saved
      else saveError saved (UnmarshalTypeError ''number'' ''float64''), map note_of ps)"
  by (induction ps arbitrary: saved) (simp_all add: decode_pair saveError_twice)

text \<open>
  C1, as it holds of the code. When the first decode reports no error and the
  \<^verbatim>\<open>properties\<close> member of the payload is a JSON array of \<^verbatim>\<open>{name, value}\<close> pairs:
  if every number in the values is within the range of \<^verbatim>\<open>float64\<close>,
  \<^verbatim>\<open>LineItem.UnmarshalJSON\<close> returns \<^verbatim>\<open>nil\<close> and \<^verbatim>\<open>Properties\<close> is that sequence of
  pairs, in the same order, each value as the decoder stores it in an \<^verbatim>\<open>interface{}\<close>
  (a number as the nearest \<^verbatim>\<open>float64\<close>); otherwise it returns the type error of the
  decoder and does not write \<^verbatim>\<open>Properties\<close>.
\<close>

theorem lineItem_properties_array:
  assumes "decode_members alias (other_members ''properties'' kvs) None (li_rest li) = (None, r')"
    and "raw_field ''properties'' kvs = Some (JArray (map pair_json ps))"
  shows "LineItem_UnmarshalJSON alias (Some (JObject kvs)) li =
         (if \<forall>nv \<in> set ps. numbers_in_range (snd nv)
          then Return None (li\<lparr>li_rest := r', Properties := Some (map note_of ps)\<rparr>)
          else Return (Some (UnmarshalTypeError ''number'' ''float64'')) (li\<lparr>li_rest := r'\<rparr>))"
  using first_unmarshal_ok [OF assms(1)] assms(2)
  by (simp add: LineItem_UnmarshalJSON_def unmarshal_NoteAttributes_def decode_pairs saveError_def)

theorem lineItem_properties_array_witness:
  "decode_members skip_field (other_members ''properties''
      [(''grams'', JNumber (Number False 7 0)),
       (''properties'', JArray (map pair_json
          [(''color'', JString ''red''), (''weight'', JNumber (Number False 25 (- 1)))]))])
      None (li_rest \<lparr>Properties = None, li_rest = ()\<rparr>) = (None, ())
   \<and> numbers_in_range (JNumber (Number False 25 (- 1)))
   \<and> LineItem_UnmarshalJSON skip_field
      (Some (JObject [(''grams'', JNumber (Number False 7 0)),
         (''properties'', JArray (map pair_json
            [(''color'', JString ''red''), (''weight'', JNumber (Number False 25 (- 1)))]))]))
      \<lparr>Properties = None, li_rest = ()\<rparr> =
     Return None \<lparr>Properties = Some [\<lparr>Name = ''color'', Value = GString ''red''\<rparr>,
                                      \<lparr>Name = ''weight'', Value = GFloat (Float64 False [2, 5] 1)\<rparr>],
                  li_rest = ()\<rparr>"
proof -
  let ?ps = "[(''color'', JString ''red''), (''weight'', JNumber (Number False 25 (- 1)))]"
  let ?kvs = "[(''grams'', JNumber (Number False 7 0)), (''properties'', JArray (map pair_json ?ps))]"
  have h1: "decode_members skip_field (other_members ''properties'' ?kvs)
      None (li_rest \<lparr>Properties = None, li_rest = ()\<rparr>) = (None, ())"
    by code_simp
  have h2: "raw_field ''properties'' ?kvs = Some (JArray (map pair_json ?ps))"
    by code_simp
  have h3: "(\<forall>nv \<in> set ?ps. numbers_in_range (snd nv)) = True"
    by code_simp
  have h4: "map note_of ?ps = [\<lparr>Name = ''color'', Value = GString ''red''\<rparr>,
                               \<lparr>Name = ''weight'', Value = GFloat (Float64 False [2, 5] 1)\<rparr>]"
    by code_simp
  have "LineItem_UnmarshalJSON skip_field (Some (JObject ?kvs)) \<lparr>Properties = None, li_rest = ()\<rparr> =
      Return None (\<lparr>Properties = None, li_rest = ()\<rparr>\<lparr>li_rest := (), Properties := Some (map note_of ?ps)\<rparr>)"
    using lineItem_properties_array [OF h1 h2] by (simp only: h3 if_True)
  moreover have "numbers_in_range (JNumber (Number False 25 (- 1)))"
    by code_simp
  ultimately show ?thesis using h1 by (simp only: h4) simp
qed

text \<open>The claim as written asks for success and the unchanged content on every array of
  pairs; the value \<^verbatim>\<open>1e400\<close> is beyond the largest \<^verbatim>\<open>float64\<close> and the decode fails
  on it, and \<^verbatim>\<open>9007199254740993\<close>, which is \<open>2 ^ 53 + 1\<close>, is stored as the
  \<^verbatim>\<open>float64\<close> \<^verbatim>\<open>9007199254740992\<close>.\<close>

theorem lineItem_properties_array_out_of_range:
  "LineItem_UnmarshalJSON skip_field
      (Some (JObject [(''properties'', JArray [pair_json (''weight'', JNumber (Number False 1 400))])]))
      \<lparr>Properties = None, li_rest = ()\<rparr> =
     Return (Some (UnmarshalTypeError ''number'' ''float64'')) \<lparr>Properties = None, li_rest = ()\<rparr>
   \<and> LineItem_UnmarshalJSON skip_field
      (Some (JObject [(''properties'',
         JArray [pair_json (''serial'', JNumber (Number False 9007199254740993 0))])]))
      \<lparr>Properties = None, li_rest = ()\<rparr> =
     Return None \<lparr>Properties = Some [\<lparr>Name = ''serial'',
        Value = GFloat (Float64 False [9, 0, 0, 7, 1, 9, 9, 2, 5, 4, 7, 4, 0, 9, 9, 2] 16)\<rparr>],
        li_rest = ()\<rparr>"
  by code_simp

text \<open>
  C2. When the raw \<^verbatim>\<open>properties\<close> value does not start with \<^verbatim>\<open>[\<close> and decodes as a
  single \<^verbatim>\<open>NoteAttribute\<close> \<open>p\<close>: \<^verbatim>\<open>Properties\<close> is the one-element slice holding \<open>p\<close>
  when \<open>p\<close> has a non-empty name or a value, and the \<^verbatim>\<open>nil\<close> slice, which has no element,
  when the name is empty and the value absent. For the object \<^verbatim>\<open>{"name": n, "value": v}\<close>
  the decoded \<open>p\<close> is that pair.
\<close>

theorem lineItem_properties_single:
  assumes "decode_members alias (other_members ''properties'' kvs) None (li_rest li) = (None, r')"
    and "raw_field ''properties'' kvs = Some raw"
    and "\<not> first_is_bracket raw"
    and "unmarshal_NoteAttribute raw = (None, p)"
  shows "LineItem_UnmarshalJSON alias (Some (JObject kvs)) li =
         Return None (li\<lparr>li_rest := r',
           Properties := (if Name p = [] \<and> Value p = GNil then None else Some [p])\<rparr>)
       \<and> slice_elems (if Name p = [] \<and> Value p = GNil then None else Some [p]) =
           (if Name p = [] \<and> Value p = GNil then [] else [p])
       \<and> (\<forall>nv. raw = pair_json nv \<longrightarrow> p = note_of nv)"
  using first_unmarshal_ok [OF assms(1)] assms(2,3,4)
  by (auto simp: LineItem_UnmarshalJSON_def slice_elems_def Let_def unmarshal_NoteAttribute_def
      decode_pair)

theorem lineItem_properties_single_witness:
  "LineItem_UnmarshalJSON skip_field
      (Some (JObject [(''properties'', pair_json (''engraving'', JString ''A.B.''))]))
      \<lparr>Properties = None, li_rest = ()\<rparr> =
     Return None \<lparr>Properties = Some [\<lparr>Name = ''engraving'', Value = GString ''A.B.''\<rparr>], li_rest = ()\<rparr>
   \<and> LineItem_UnmarshalJSON skip_field (Some (JObject [(''properties'', JObject [])]))
      \<lparr>Properties = Some [\<lparr>Name = ''old'', Value = GNil\<rparr>], li_rest = ()\<rparr> =
     Return None \<lparr>Properties = None, li_rest = ()\<rparr>"
proof -
  let ?a = "[(''properties'', pair_json (''engraving'', JString ''A.B.''))]"
  let ?b = "[(''properties'', JObject [])]"
  let ?old = "\<lparr>Properties = Some [\<lparr>Name = ''old'', Value = GNil\<rparr>], li_rest = ()\<rparr>"
  have a1: "decode_members skip_field (other_members ''properties'' ?a) None
      (li_rest \<lparr>Properties = None, li_rest = ()\<rparr>) = (None, ())"
    by code_simp
  have a2: "raw_field ''properties'' ?a = Some (pair_json (''engraving'', JString ''A.B.''))"
    by code_simp
  have a3: "\<not> first_is_bracket (pair_json (''engraving'', JString ''A.B.''))"
    by (simp add: pair_json_def)
  have a4: "unmarshal_NoteAttribute (pair_json (''engraving'', JString ''A.B.'')) =
      (None, \<lparr>Name = ''engraving'', Value = GString ''A.B.''\<rparr>)"
    by code_simp
  have b1: "decode_members skip_field (other_members ''properties'' ?b) None (li_rest ?old) = (None, ())"
    by code_simp
  have b2: "raw_field ''properties'' ?b = Some (JObject [])"
    by code_simp
  have b3: "\<not> first_is_bracket (JObject [])"
    by simp
  have b4: "unmarshal_NoteAttribute (JObject []) = (None, \<lparr>Name = [], Value = GNil\<rparr>)"
    by code_simp
  show ?thesis using lineItem_properties_single [OF a1 a2 a3 a4] lineItem_properties_single [OF b1 b2 b3 b4] by simp
qed

text \<open>
  C3, as it holds of the code. When the payload has no \<^verbatim>\<open>properties\<close> member, the raw value is empty:
  \<^verbatim>\<open>LineItem.UnmarshalJSON\<close> returns \<^verbatim>\<open>nil\<close> and leaves \<^verbatim>\<open>Properties\<close> as it was
  before the call. Decoding into a zero \<^verbatim>\<open>LineItem\<close> it is therefore the \<^verbatim>\<open>nil\<close> slice,
  not an allocated empty one.
\<close>

theorem lineItem_properties_absent:
  assumes "decode_members alias (other_members ''properties'' kvs) None (li_rest li) = (None, r')"
    and "raw_field ''properties'' kvs = None"
  shows "LineItem_UnmarshalJSON alias (Some (JObject kvs)) li = Return None (li\<lparr>li_rest := r'\<rparr>)
       \<and> Properties (li\<lparr>li_rest := r'\<rparr>) = Properties li"
  using first_unmarshal_ok [OF assms(1)] assms(2)
  by (simp add: LineItem_UnmarshalJSON_def)

theorem lineItem_properties_absent_witness:
  "LineItem_UnmarshalJSON skip_field (Some (JObject [(''grams'', JNumber (Number False 7 0))]))
      \<lparr>Properties = None, li_rest = ()\<rparr> =
     Return None \<lparr>Properties = None, li_rest = ()\<rparr>"
proof -
  let ?kvs = "[(''grams'', JNumber (Number False 7 0))]"
  have h1: "decode_members skip_field (other_members ''properties'' ?kvs) None
      (li_rest \<lparr>Properties = None, li_rest = ()\<rparr>) = (None, ())"
    by code_simp
  have h2: "raw_field ''properties'' ?kvs = None"
    by code_simp
  show ?thesis using lineItem_properties_absent [OF h1 h2] by simp
qed

text \<open>The claim as written asks for an empty sequence that is not null; on a zero
  \<^verbatim>\<open>LineItem\<close> and the payload \<^verbatim>\<open>{}\<close> the field is the \<^verbatim>\<open>nil\<close> slice.\<close>

theorem lineItem_properties_absent_is_nil:
  "LineItem_UnmarshalJSON skip_field (Some (JObject [])) \<lparr>Properties = None, li_rest = ()\<rparr> =
     Return None \<lparr>Properties = None, li_rest = ()\<rparr>
   \<and> Properties \<lparr>Properties = None, li_rest = ()\<rparr> \<noteq> Some []"
  by (simp add: LineItem_UnmarshalJSON_def unmarshal_struct_def)

text \<open>
  C4. When the raw \<^verbatim>\<open>properties\<close> value does not decode in its branch (as a slice of
  \<^verbatim>\<open>NoteAttribute\<close> when it starts with \<^verbatim>\<open>[\<close>, as one \<^verbatim>\<open>NoteAttribute\<close> otherwise),
  \<^verbatim>\<open>LineItem.UnmarshalJSON\<close> returns that decode error and does not write
  \<^verbatim>\<open>Properties\<close>.
\<close>

theorem lineItem_properties_malformed:
  assumes "decode_members alias (other_members ''properties'' kvs) None (li_rest li) = (None, r')"
    and "raw_field ''properties'' kvs = Some raw"
    and "(if first_is_bracket raw then fst (unmarshal_NoteAttributes raw)
          else fst (unmarshal_NoteAttribute raw)) = Some e"
  shows "LineItem_UnmarshalJSON alias (Some (JObject kvs)) li = Return (Some e) (li\<lparr>li_rest := r'\<rparr>)"
  using first_unmarshal_ok [OF assms(1)] assms(2,3)
  by (auto simp: LineItem_UnmarshalJSON_def Let_def split: prod.splits option.splits if_splits)

theorem lineItem_properties_malformed_witness:
  "LineItem_UnmarshalJSON skip_field
      (Some (JObject [(''properties'', JArray [JNumber (Number False 1 0)])]))
      \<lparr>Properties = None, li_rest = ()\<rparr> =
     Return (Some (UnmarshalTypeError ''number'' ''goshopify.NoteAttribute''))
       \<lparr>Properties = None, li_rest = ()\<rparr>
   \<and> LineItem_UnmarshalJSON skip_field (Some (JObject [(''properties'', JString ''red'')]))
      \<lparr>Properties = None, li_rest = ()\<rparr> =
     Return (Some (UnmarshalTypeError ''string'' ''goshopify.NoteAttribute''))
       \<lparr>Properties = None, li_rest = ()\<rparr>"
proof -
  let ?a = "[(''properties'', JArray [JNumber (Number False 1 0)])]"
  let ?b = "[(''properties'', JString ''red'')]"
  let ?li = "\<lparr>Properties = None, li_rest = ()\<rparr>"
  have a1: "decode_members skip_field (other_members ''properties'' ?a) None (li_rest ?li) = (None, ())"
    by code_simp
  have a2: "raw_field ''properties'' ?a = Some (JArray [JNumber (Number False 1 0)])"
    by code_simp
  have a3: "(if first_is_bracket (JArray [JNumber (Number False 1 0)])
             then fst (unmarshal_NoteAttributes (JArray [JNumber (Number False 1 0)]))
             else fst (unmarshal_NoteAttribute (JArray [JNumber (Number False 1 0)]))) =
            Some (UnmarshalTypeError ''number'' ''goshopify.NoteAttribute'')"
    by code_simp
  have b1: "decode_members skip_field (other_members ''properties'' ?b) None (li_rest ?li) = (None, ())"
    by code_simp
  have b2: "raw_field ''properties'' ?b = Some (JString ''red'')"
    by code_simp
  have b3: "(if first_is_bracket (JString ''red'')
             then fst (unmarshal_NoteAttributes (JString ''red''))
             else fst (unmarshal_NoteAttribute (JString ''red''))) =
            Some (UnmarshalTypeError ''string'' ''goshopify.NoteAttribute'')"
    by code_simp
  show ?thesis using lineItem_properties_malformed [OF a1 a2 a3] lineItem_properties_malformed [OF b1 b2 b3] by simp
qed

subsection \<open>The requested fulfillment service of a shipping line\<close>

text \<open>What the decoder stores for the three shapes: nothing for \<^verbatim>\<open>null\<close> or no member, the
  string itself, and the \<^verbatim>\<open>%v\<close> rendering of the \<^verbatim>\<open>float64\<close> of a number.\<close>

lemma shippingLines_id_rendering:
  assumes "decode_members alias (other_members ''requested_fulfillment_service_id'' kvs) None
             (sl_rest sl) = (None, r')"
    and "\<And>k v. (k, v) \<in> set kvs \<Longrightarrow> matchesField k ''requested_fulfillment_service_id''
           \<Longrightarrow> numbers_in_range v"
  shows "ShippingLines_UnmarshalJSON alias (Some (JObject kvs)) sl =
         Return None (sl\<lparr>sl_rest := r',
           RequestedFulfillmentServiceID :=
             (case raw_field ''requested_fulfillment_service_id'' kvs of
                None \<Rightarrow> []
              | Some JNull \<Rightarrow> []
              | Some (JString s) \<Rightarrow> s
              | Some (JNumber t) \<Rightarrow> (case convertNumber t of None \<Rightarrow> [] | Some f \<Rightarrow> formatFloat_g f)
              | Some v \<Rightarrow> sprintf_v (to_go v))\<rparr>)"
proof (cases "raw_field ''requested_fulfillment_service_id'' kvs")
  case None
  then show ?thesis using shipping_unmarshal_ok [OF assms]
    by (simp add: ShippingLines_UnmarshalJSON_def)
next
  case (Some v)
  then show ?thesis using shipping_unmarshal_ok [OF assms]
    by (cases v) (simp_all add: ShippingLines_UnmarshalJSON_def split: option.splits)
qed

lemma length_strip_zeros: "length (strip_zeros ds) \<le> length ds"
  by (induction ds) (auto split: list.splits)

lemma strip_zeros_pad: "strip_zeros ds @ replicate (length ds - length (strip_zeros ds)) 0 = ds"
proof (induction ds)
  case Nil
  then show ?case by simp
next
  case (Cons x xs)
  show ?case
  proof (cases "strip_zeros xs")
    case Nil
    then have "replicate (length xs) 0 = xs" using Cons.IH by simp
    then show ?thesis using Nil by (simp add: replicate_app_Cons_same)
  next
    case (Cons y ys)
    have "length (strip_zeros xs) \<le> length xs" by (rule length_strip_zeros)
    then have "Suc (length xs) - Suc (length (strip_zeros xs)) = length xs - length (strip_zeros xs)"
      by simp
    then show ?thesis using Cons Cons.IH by simp
  qed
qed

lemma length_digits_of_le: "0 < k \<Longrightarrow> n < 10 ^ k \<Longrightarrow> length (digits_of n) \<le> k"
proof (induction k arbitrary: n)
  case 0
  then show ?case by simp
next
  case (Suc k)
  show ?case
  proof (cases "n < 10")
    case True
    then show ?thesis by (subst digits_of.simps) simp
  next
    case False
    then have k: "0 < k" using Suc.prems by (cases k) simp_all
    have "n div 10 < 10 ^ k" using Suc.prems(2) by simp
    then have "length (digits_of (n div 10)) \<le> k" using Suc.IH k by blast
    then show ?thesis using False by (subst digits_of.simps) simp
  qed
qed

lemma length_digits_of_ge: "10 ^ k \<le> n \<Longrightarrow> k < length (digits_of n)"
proof (induction k arbitrary: n)
  case 0
  then show ?case by (subst digits_of.simps) simp
next
  case (Suc k)
  have p: "(1::int) \<le> 10 ^ k" by simp
  have "10 ^ Suc k = 10 * (10::int) ^ k" by simp
  then have n: "\<not> n < 10" using Suc.prems p by linarith
  have "10 ^ k \<le> n div 10" using Suc.prems by simp
  then have "k < length (digits_of (n div 10))" by (rule Suc.IH)
  then show ?case using n by (subst digits_of.simps) simp
qed

lemma digits_of_small: "0 \<le> n \<Longrightarrow> x \<in> set (digits_of n) \<Longrightarrow> x < 10"
proof (induction n rule: digits_of.induct)
  case (1 n)
  show ?case
  proof (cases "n < 10")
    case True
    then have "digits_of n = [nat n]" by (subst digits_of.simps) simp
    then show ?thesis using "1.prems" True by simp
  next
    case False
    then have s: "digits_of n = digits_of (n div 10) @ [nat (n mod 10)]"
      by (subst digits_of.simps) simp
    have "0 \<le> n div 10" using "1.prems"(1) by simp
    then show ?thesis using "1.IH" False "1.prems" s by auto
  qed
qed

lemma digit_char_0: "digit_char 0 = CHR ''0''"
  by code_simp

lemma digits_of_0: "digits_of 0 = [0]"
  by (subst digits_of.simps) simp

text \<open>Below a million in absolute value an integer is rendered in decimal.\<close>

lemma formatFloat_small_int:
  assumes "\<bar>n\<bar> < 1000000"
  shows "formatFloat_g (float64_of_int n) = decimal_string n"
proof (cases "n = 0")
  case True
  then show ?thesis
    by (simp add: formatFloat_g_def float64_of_int_def decimal_string_def fmtF_def digit_char_0
        digits_of_0)
next
  case False
  let ?ds = "digits_of \<bar>n\<bar>"
  let ?s = "strip_zeros ?ds"
  have "\<bar>n\<bar> < 10 ^ 6" using assms by simp
  then have le: "length ?ds \<le> 6" by (intro length_digits_of_le) simp_all
  have "10 ^ 0 \<le> \<bar>n\<bar>" using False by simp
  then have ge: "0 < length ?ds" by (rule length_digits_of_ge)
  have sl: "length ?s \<le> length ?ds" by (rule length_strip_zeros)
  have "map digit_char ?s @ replicate (length ?ds - length ?s) CHR ''0'' =
        map digit_char (?s @ replicate (length ?ds - length ?s) 0)"
    by (simp add: digit_char_0)
  then have pad: "map digit_char ?s @ replicate (length ?ds - length ?s) CHR ''0'' = map digit_char ?ds"
    by (simp only: strip_zeros_pad)
  have m: "min (int (length ?s)) (int (length ?ds)) = int (length ?s)" using sl by simp
  have r: "nat (int (length ?ds) - int (length ?s)) = length ?ds - length ?s" by simp
  show ?thesis using False le ge sl pad
    by (simp add: formatFloat_g_def float64_of_int_def decimal_string_def fmtF_def Let_def m r
       )
qed

text \<open>From a million on the rendering has an exponent, which the decimal rendering has
  not.\<close>

lemma fmtE_has_exponent: "CHR ''e'' \<in> set (fmtE neg d dp prec)"
proof -
  have "CHR ''e'' \<in> set ''e''" by simp
  then show ?thesis unfolding fmtE_def Let_def set_append by blast
qed

lemma formatFloat_large_int:
  assumes "1000000 \<le> \<bar>n\<bar>"
  shows "CHR ''e'' \<in> set (formatFloat_g (float64_of_int n))"
    and "CHR ''e'' \<notin> set (decimal_string n)"
proof -
  have "10 ^ 6 \<le> \<bar>n\<bar>" using assms by simp
  then have l: "6 < length (digits_of \<bar>n\<bar>)" by (rule length_digits_of_ge)
  have n: "n \<noteq> 0" using assms by auto
  have "formatFloat_g (float64_of_int n) =
      fmtE (n < 0) (strip_zeros (digits_of \<bar>n\<bar>)) (int (length (digits_of \<bar>n\<bar>)))
        (int (length (strip_zeros (digits_of \<bar>n\<bar>))) - 1)"
    using l n by (simp add: formatFloat_g_def float64_of_int_def Let_def)
  then show "CHR ''e'' \<in> set (formatFloat_g (float64_of_int n))"
    by (simp only: fmtE_has_exponent)
  have d: "\<not> isDigit CHR ''e''" by code_simp
  have "\<And>x. x \<in> set (digits_of \<bar>n\<bar>) \<Longrightarrow> digit_char x \<noteq> CHR ''e''"
  proof -
    fix x assume "x \<in> set (digits_of \<bar>n\<bar>)"
    then have "x < 10" using digits_of_small [of "\<bar>n\<bar>" x] by simp
    then have "isDigit (digit_char x)" by (simp add: isDigit_def digit_char_def)
    then show "digit_char x \<noteq> CHR ''e''" using d by metis
  qed
  then have "CHR ''e'' \<notin> set (map digit_char (digits_of \<bar>n\<bar>))"
    unfolding set_map image_iff by metis
  then show "CHR ''e'' \<notin> set (decimal_string n)"
    unfolding decimal_string_def by (cases "n < 0") simp_all
qed

text \<open>
  C5. \<^verbatim>\<open>ShippingLines.UnmarshalJSON\<close> on the number \<open>1234567\<close>: the field is the
  \<^verbatim>\<open>%v\<close> rendering of the \<^verbatim>\<open>float64\<close>, which is in scientific notation, and not the
  decimal rendering \<^verbatim>\<open>1234567\<close> of the number.
\<close>

theorem shippingLines_number_scientific:
  "ShippingLines_UnmarshalJSON skip_field
      (Some (JObject [(''requested_fulfillment_service_id'', JNumber (Number False 1234567 0))]))
      \<lparr>RequestedFulfillmentServiceID = [], sl_rest = ()\<rparr> =
     Return None \<lparr>RequestedFulfillmentServiceID = ''1.234567e+06'', sl_rest = ()\<rparr>
   \<and> decimal_string 1234567 = ''1234567''"
  by code_simp

section \<open>Properties of the timestamp parser\<close>

subsection \<open>Reading back what the layouts write\<close>

lemma digit_char_ok: "n < 10 \<Longrightarrow> isDigit (digit_char n) \<and> digit_val (digit_char n) = n"
  by (simp add: isDigit_def digit_val_def digit_char_def)

lemma digit_not_sep:
  "n < 10 \<Longrightarrow> digit_char n \<noteq> CHR ''-'' \<and> digit_char n \<noteq> CHR ''.''"
  using digit_char_ok [of n] by (auto simp: isDigit_def)

















text \<open>
  C6. \<^verbatim>\<open>parse\<close> on a \<^verbatim>\<open>nil\<close> string pointer returns \<^verbatim>\<open>nil\<close> and does not write the
  destination: a timestamp that was \<^verbatim>\<open>nil\<close> stays \<^verbatim>\<open>nil\<close>.
\<close>

theorem parse_nil: "parse dest None = (None, dest) \<and> parse None None = (None, None)"
  by (simp add: parse_def)

theorem parse_nil_witness:
  "parse (Some \<lparr>t_year = 2013, t_month = 6, t_day = 27, t_hour = 0, t_min = 0, t_sec = 0,
                  t_nsec = 0, t_loc = UTC\<rparr>) None =
     (None, Some \<lparr>t_year = 2013, t_month = 6, t_day = 27, t_hour = 0, t_min = 0, t_sec = 0,
                    t_nsec = 0, t_loc = UTC\<rparr>)"
  using parse_nil [of "Some \<lparr>t_year = 2013, t_month = 6, t_day = 27, t_hour = 0, t_min = 0,
    t_sec = 0, t_nsec = 0, t_loc = UTC\<rparr>"] by simp





section \<open>Properties of the order listing\<close>

text \<open>
  C9. \<^verbatim>\<open>extractPagination\<close> on the empty header returns the pagination without a next and
  without a previous cursor, and no error; so \<^verbatim>\<open>ListWithPagination\<close> on a response without a
  \<^verbatim>\<open>Link\<close> header returns the orders with that empty pagination.
\<close>

theorem extractPagination_empty:
  "extractPagination [] = Inr \<lparr>pg_next = None, pg_previous = None\<rparr>
   \<and> (header_Get headers ''Link'' = [] \<longrightarrow>
        ListWithPagination (Inr (headers, orders)) =
          Inr (orders, \<lparr>pg_next = None, pg_previous = None\<rparr>))"
  by (simp add: extractPagination_def ListWithPagination_def no_pagination_def)

theorem extractPagination_empty_witness:
  "header_Get Map.empty ''Link'' = []
   \<and> ListWithPagination (Inr (Map.empty, [''#1001'', ''#1002''])) =
       Inr ([''#1001'', ''#1002''], \<lparr>pg_next = None, pg_previous = None\<rparr>)"
proof -
  have h: "header_Get Map.empty ''Link'' = []" by (simp add: header_Get_def)
  show ?thesis using h extractPagination_empty [of Map.empty "[''#1001'', ''#1002'']"] by simp
qed

section \<open>Properties of the recurring application charge decoder\<close>

lemma saveError_not_None: "saveError saved e \<noteq> None"
  by (simp add: saveError_def split: option.splits)

lemma decode_string_ptr_cases:
  "(\<exists>x. decode_string_ptr v cur = Stored x) \<or> (\<exists>e x. decode_string_ptr v cur = Mismatch e x)"
  by (cases v) (simp_all add: decode_string_ptr_def)

lemma decode_string_ptr_replace:
  "rel_step (\<lambda>x y. True) (decode_string_ptr v cur) 
     (decode_string_ptr (case v of JString s \<Rightarrow> JString txt | _ \<Rightarrow> v) cur')"
  by (cases v) (simp_all add: decode_string_ptr_def)

lemma is_discarded_iff:
  "is_discarded k \<longleftrightarrow>
     matchesField k ''activated_on'' \<or> matchesField k ''billing_on'' \<or> matchesField k ''cancelled_on''
     \<or> matchesField k ''created_at'' \<or> matchesField k ''trial_ends_on''"
  by (simp add: is_discarded_def discarded_names_def)

lemma updated_at_not_discarded: "matchesField k ''updated_at'' \<Longrightarrow> \<not> is_discarded k"
proof -
  have "foldName ''updated_at'' \<noteq> foldName ''activated_on''" by code_simp
  moreover have "foldName ''updated_at'' \<noteq> foldName ''billing_on''" by code_simp
  moreover have "foldName ''updated_at'' \<noteq> foldName ''cancelled_on''" by code_simp
  moreover have "foldName ''updated_at'' \<noteq> foldName ''created_at''" by code_simp
  moreover have "foldName ''updated_at'' \<noteq> foldName ''trial_ends_on''" by code_simp
  moreover assume "matchesField k ''updated_at''"
  ultimately show ?thesis by (auto simp: is_discarded_iff matchesField_def)
qed

text \<open>One member: the replaced text changes neither the kind of step, nor the error, nor
  the two parts of the auxiliary struct that are read afterwards.\<close>

lemma rac_step_replace:
  assumes "aux_UpdatedAt a = aux_UpdatedAt b" "aux_alias a = aux_alias b"
  shows "rel_step (\<lambda>x y. aux_UpdatedAt x = aux_UpdatedAt y \<and> aux_alias x = aux_alias y)
           (rac_aux_field alias k v a)
           (rac_aux_field alias k
              (case v of JString s \<Rightarrow> if is_discarded k then JString txt else JString s | _ \<Rightarrow> v) b)"
proof (cases "is_discarded k")
  case True
  then have nu: "\<not> matchesField k ''updated_at''" using updated_at_not_discarded by blast
  have v: "(case v of JString s \<Rightarrow> if is_discarded k then JString txt else JString s | _ \<Rightarrow> v) =
           (case v of JString s \<Rightarrow> JString txt | _ \<Rightarrow> v)"
    using True by (simp split: json.splits)
  show ?thesis unfolding v using True assms
    by (cases v) (auto simp: rac_aux_field_def is_discarded_iff decode_string_ptr_def)
next
  case False
  then have v: "(case v of JString s \<Rightarrow> if is_discarded k then JString txt else JString s | _ \<Rightarrow> v) = v"
    by (simp split: json.splits)
  show ?thesis unfolding v using False assms
    by (cases v; cases "alias k v (aux_alias b)")
       (auto simp: rac_aux_field_def is_discarded_iff decode_string_ptr_def)
qed

lemma rac_members_replace:
  assumes "aux_UpdatedAt a = aux_UpdatedAt b" "aux_alias a = aux_alias b"
  shows "fst (decode_members (rac_aux_field alias) kvs saved a) =
           fst (decode_members (rac_aux_field alias) (replace_discarded txt kvs) saved b)
       \<and> aux_UpdatedAt (snd (decode_members (rac_aux_field alias) kvs saved a)) =
           aux_UpdatedAt (snd (decode_members (rac_aux_field alias) (replace_discarded txt kvs) saved b))
       \<and> aux_alias (snd (decode_members (rac_aux_field alias) kvs saved a)) =
           aux_alias (snd (decode_members (rac_aux_field alias) (replace_discarded txt kvs) saved b))"
  using assms
proof (induction kvs arbitrary: saved a b)
  case Nil
  then show ?case by simp
next
  case (Cons kv kvs)
  obtain k v where kv: "kv = (k, v)" by (cases kv)
  let ?v = "case v of JString s \<Rightarrow> if is_discarded k then JString txt else JString s | _ \<Rightarrow> v"
  have r: "replace_discarded txt ((k, v) # kvs) = (k, ?v) # replace_discarded txt kvs"
    by (simp split: json.splits)
  have st: "rel_step (\<lambda>x y. aux_UpdatedAt x = aux_UpdatedAt y \<and> aux_alias x = aux_alias y)
           (rac_aux_field alias k v a) (rac_aux_field alias k ?v b)"
    by (rule rac_step_replace [OF Cons.prems])
  show ?case
  proof (cases "rac_aux_field alias k v a")
    case (Stored a1)
    then obtain b1 where b1: "rac_aux_field alias k ?v b = Stored b1"
      and s: "aux_UpdatedAt a1 = aux_UpdatedAt b1" "aux_alias a1 = aux_alias b1"
      using st by (cases "rac_aux_field alias k ?v b") auto
    show ?thesis unfolding kv r using Stored b1 Cons.IH [OF s, of saved]
      by (simp del: replace_discarded.simps)
  next
    case (Mismatch e a1)
    then obtain b1 where b1: "rac_aux_field alias k ?v b = Mismatch e b1"
      and s: "aux_UpdatedAt a1 = aux_UpdatedAt b1" "aux_alias a1 = aux_alias b1"
      using st by (cases "rac_aux_field alias k ?v b") auto
    show ?thesis unfolding kv r using Mismatch b1 Cons.IH [OF s, of "saveError saved e"]
      by (simp del: replace_discarded.simps)
  next
    case (Abort e a1)
    then obtain b1 where b1: "rac_aux_field alias k ?v b = Abort e b1"
      and s: "aux_UpdatedAt a1 = aux_UpdatedAt b1" "aux_alias a1 = aux_alias b1"
      using st by (cases "rac_aux_field alias k ?v b") auto
    show ?thesis unfolding kv r using Abort b1 s by (simp del: replace_discarded.simps)
  qed
qed

lemma rac_replace_outcome:
  "RecurringApplicationCharge_UnmarshalJSON alias (Some (JObject (replace_discarded txt kvs))) r =
   RecurringApplicationCharge_UnmarshalJSON alias (Some (JObject kvs)) r"
proof -
  let ?A = "decode_members (rac_aux_field alias) kvs None (rac_aux_init (rac_rest r))"
  let ?B = "decode_members (rac_aux_field alias) (replace_discarded txt kvs) None (rac_aux_init (rac_rest r))"
  have "fst ?A = fst ?B \<and> aux_UpdatedAt (snd ?A) = aux_UpdatedAt (snd ?B)
        \<and> aux_alias (snd ?A) = aux_alias (snd ?B)"
    by (rule rac_members_replace) simp_all
  then show ?thesis
    by (cases ?A; cases ?B)
       (simp add: RecurringApplicationCharge_UnmarshalJSON_def unmarshal_struct_def Let_def
          split: option.splits)
qed

text \<open>A member that goes to one of the six strings of the auxiliary struct is stored or is
  a type error; it leaves the alias alone, and \<^verbatim>\<open>UpdatedAt\<close> too unless that is its
  field.\<close>

lemma rac_own_step:
  assumes "is_discarded k \<or> matchesField k ''updated_at''"
  shows "(\<exists>a1. rac_aux_field alias k v a = Stored a1 \<and> aux_alias a1 = aux_alias a
            \<and> (\<not> matchesField k ''updated_at'' \<longrightarrow> aux_UpdatedAt a1 = aux_UpdatedAt a))
       \<or> (\<exists>e a1. rac_aux_field alias k v a = Mismatch e a1 \<and> aux_alias a1 = aux_alias a
            \<and> (\<not> matchesField k ''updated_at'' \<longrightarrow> aux_UpdatedAt a1 = aux_UpdatedAt a))"
  using assms
  by (cases v) (auto simp: rac_aux_field_def is_discarded_iff decode_string_ptr_def)

text \<open>The fields of the alias see the schema members only, whatever errors are on record.\<close>

lemma rac_members_rest:
  "aux_alias (snd (decode_members (rac_aux_field alias) kvs saved a)) =
   snd (decode_members alias (schema_members kvs) saved' (aux_alias a))"
proof (induction kvs arbitrary: saved saved' a)
  case Nil
  then show ?case by (simp add: schema_members_def)
next
  case (Cons kv kvs)
  obtain k v where kv: "kv = (k, v)" by (cases kv)
  show ?case
  proof (cases "is_discarded k \<or> matchesField k ''updated_at''")
    case True
    then have sm: "schema_members ((k, v) # kvs) = schema_members kvs"
      by (auto simp: schema_members_def)
    show ?thesis
      using rac_own_step [OF True, of "alias" v a]
    proof (elim disjE exE conjE)
      fix a1 assume "rac_aux_field alias k v a = Stored a1" "aux_alias a1 = aux_alias a"
      then show ?thesis unfolding kv sm using Cons.IH [of saved a1 saved'] by simp
    next
      fix e a1 assume "rac_aux_field alias k v a = Mismatch e a1" "aux_alias a1 = aux_alias a"
      then show ?thesis unfolding kv sm using Cons.IH [of "saveError saved e" a1 saved'] by simp
    qed
  next
    case False
    then have sm: "schema_members ((k, v) # kvs) = (k, v) # schema_members kvs"
      by (auto simp: schema_members_def)
    from False have f: "rac_aux_field alias k v a =
        map_step (\<lambda>r. a\<lparr>aux_alias := r\<rparr>) (alias k v (aux_alias a))"
      by (auto simp: rac_aux_field_def is_discarded_iff)
    show ?thesis unfolding kv sm
    proof (cases "alias k v (aux_alias a)")
      case (Stored r1)
      then show "aux_alias (snd (decode_members (rac_aux_field alias) ((k, v) # kvs) saved a)) =
          snd (decode_members alias ((k, v) # schema_members kvs) saved' (aux_alias a))"
        using f Cons.IH [of saved "a\<lparr>aux_alias := r1\<rparr>" saved'] by simp
    next
      case (Mismatch e r1)
      then show "aux_alias (snd (decode_members (rac_aux_field alias) ((k, v) # kvs) saved a)) =
          snd (decode_members alias ((k, v) # schema_members kvs) saved' (aux_alias a))"
        using f Cons.IH [of "saveError saved e" "a\<lparr>aux_alias := r1\<rparr>" "saveError saved' e"]
        by simp
    next
      case (Abort e r1)
      then show "aux_alias (snd (decode_members (rac_aux_field alias) ((k, v) # kvs) saved a)) =
          snd (decode_members alias ((k, v) # schema_members kvs) saved' (aux_alias a))"
        using f by simp
    qed
  qed
qed

text \<open>Without an error the \<^verbatim>\<open>UpdatedAt\<close> of the auxiliary struct is the last
  \<^verbatim>\<open>updated_at\<close> member.\<close>

lemma rac_members_updated:
  "fst (decode_members (rac_aux_field alias) kvs saved a) = None \<Longrightarrow>
   aux_UpdatedAt (snd (decode_members (rac_aux_field alias) kvs saved a)) =
     (case raw_field ''updated_at'' kvs of
        None \<Rightarrow> aux_UpdatedAt a
      | Some (JString s) \<Rightarrow> Some s
      | Some _ \<Rightarrow> None)"
proof (induction kvs arbitrary: saved a)
  case Nil
  then show ?case by simp
next
  case (Cons kv kvs)
  obtain k v where kv: "kv = (k, v)" by (cases kv)
  show ?case
  proof (cases "rac_aux_field alias k v a")
    case (Mismatch e a1)
    then have "fst (decode_members (rac_aux_field alias) (kv # kvs) saved a) \<noteq> None"
      using saved_error_stays [of "rac_aux_field alias" kvs _ a1]
      by (cases saved) (simp_all add: kv saveError_def)
    then show ?thesis using Cons.prems by simp
  next
    case (Abort e a1)
    then show ?thesis using Cons.prems by (simp add: kv)
  next
    case (Stored a1)
    then have d: "decode_members (rac_aux_field alias) (kv # kvs) saved a =
        decode_members (rac_aux_field alias) kvs saved a1"
      by (simp add: kv)
    have ih: "aux_UpdatedAt (snd (decode_members (rac_aux_field alias) kvs saved a1)) =
       (case raw_field ''updated_at'' kvs of
          None \<Rightarrow> aux_UpdatedAt a1
        | Some (JString s) \<Rightarrow> Some s
        | Some _ \<Rightarrow> None)"
      using Cons.prems d by (intro Cons.IH) simp
    show ?thesis
    proof (cases "matchesField k ''updated_at''")
      case True
      then have nd: "\<not> is_discarded k" by (rule updated_at_not_discarded)
      then have f: "rac_aux_field alias k v a =
          map_step (\<lambda>x. a\<lparr>aux_UpdatedAt := x\<rparr>) (decode_string_ptr v (aux_UpdatedAt a))"
        using True by (simp add: rac_aux_field_def is_discarded_iff)
      have u: "aux_UpdatedAt a1 = (case v of JString s \<Rightarrow> Some s | _ \<Rightarrow> None)"
        using Stored f by (cases v) (auto simp: decode_string_ptr_def)
      show ?thesis unfolding d ih using True u
        by (simp add: kv split: option.splits json.splits)
    next
      case False
      then have rf: "raw_field ''updated_at'' (kv # kvs) = raw_field ''updated_at'' kvs"
        by (simp add: kv split: option.splits)
      have u: "aux_UpdatedAt a1 = aux_UpdatedAt a"
      proof (cases "is_discarded k")
        case True
        then show ?thesis using rac_own_step [of k "alias" v a] Stored False by auto
      next
        case nd: False
        then have "rac_aux_field alias k v a =
            map_step (\<lambda>r. a\<lparr>aux_alias := r\<rparr>) (alias k v (aux_alias a))"
          using False by (auto simp: rac_aux_field_def is_discarded_iff)
        then show ?thesis using Stored by (cases "alias k v (aux_alias a)") auto
      qed
      show ?thesis unfolding d ih rf using u by (simp split: option.splits)
    qed
  qed
qed

lemma parse_error_keeps_dest: "parse dest data = (Some err, d) \<Longrightarrow> d = dest"
  by (auto simp: parse_def Let_def split: option.splits sum.splits)

lemma rac_outcome_fields:
  assumes "RecurringApplicationCharge_UnmarshalJSON alias (Some (JObject kvs)) r = Return e r'"
  shows "rac_rest r' = snd (decode_members alias (schema_members kvs) None (rac_rest r))
       \<and> (UpdatedAt r' = UpdatedAt r
          \<or> (\<exists>s. raw_field ''updated_at'' kvs = Some (JString s)
                 \<and> parse (UpdatedAt r) (Some s) = (None, UpdatedAt r')))"
proof -
  let ?A = "decode_members (rac_aux_field alias) kvs None (rac_aux_init (rac_rest r))"
  obtain e1 a1 where A: "?A = (e1, a1)" by (cases ?A)
  have rest: "aux_alias a1 = snd (decode_members alias (schema_members kvs) None (rac_rest r))"
    using rac_members_rest [of "alias" kvs None "rac_aux_init (rac_rest r)" None] A
    by (simp add: rac_aux_init_def)
  show ?thesis
  proof (cases e1)
    case (Some err)
    then show ?thesis using assms A rest
      by (auto simp: RecurringApplicationCharge_UnmarshalJSON_def unmarshal_struct_def)
  next
    case None
    have u: "aux_UpdatedAt a1 =
        (case raw_field ''updated_at'' kvs of None \<Rightarrow> None | Some (JString s) \<Rightarrow> Some s | Some _ \<Rightarrow> None)"
      using rac_members_updated [of "alias" kvs None "rac_aux_init (rac_rest r)"] A None
      by (simp add: rac_aux_init_def split: option.splits)
    obtain e2 d where p: "parse (UpdatedAt r) (aux_UpdatedAt a1) = (e2, d)"
      by (cases "parse (UpdatedAt r) (aux_UpdatedAt a1)")
    have r': "r' = r\<lparr>rac_rest := aux_alias a1, UpdatedAt := d\<rparr>" and e: "e = e2"
      using assms A None p
      by (auto simp: RecurringApplicationCharge_UnmarshalJSON_def unmarshal_struct_def Let_def
          split: option.splits)
    show ?thesis
    proof (cases "aux_UpdatedAt a1")
      case None
      then have "d = UpdatedAt r" using p by (simp add: parse_def)
      then show ?thesis using r' rest by simp
    next
      case (Some s)
      then have rf: "raw_field ''updated_at'' kvs = Some (JString s)"
        using u by (auto split: option.splits json.splits)
      show ?thesis
      proof (cases e2)
        case None
        then show ?thesis using p Some rf r' rest by simp
      next
        case (Some err)
        then have "d = UpdatedAt r" using p parse_error_keeps_dest by blast
        then show ?thesis using r' rest by simp
      qed
    qed
  qed
qed

text \<open>
  C10. \<^verbatim>\<open>RecurringApplicationCharge.UnmarshalJSON\<close> parses the \<^verbatim>\<open>updated_at\<close> string and no
  other: whatever text the \<^verbatim>\<open>activated_on\<close>, \<^verbatim>\<open>billing_on\<close>, \<^verbatim>\<open>cancelled_on\<close>,
  \<^verbatim>\<open>created_at\<close> and \<^verbatim>\<open>trial_ends_on\<close> strings hold, the error and the record returned are
  the same; the fields other than \<^verbatim>\<open>UpdatedAt\<close> are those of the schema decode of the members
  that belong to them; and \<^verbatim>\<open>UpdatedAt\<close> changes only by a successful \<^verbatim>\<open>parse\<close> of the
  \<^verbatim>\<open>updated_at\<close> string.
\<close>

theorem rac_parses_only_updated_at:
  "RecurringApplicationCharge_UnmarshalJSON alias (Some (JObject (replace_discarded txt kvs))) r =
     RecurringApplicationCharge_UnmarshalJSON alias (Some (JObject kvs)) r
   \<and> (\<forall>e r'. RecurringApplicationCharge_UnmarshalJSON alias (Some (JObject kvs)) r = Return e r' \<longrightarrow>
         rac_rest r' = snd (decode_members alias (schema_members kvs) None (rac_rest r))
         \<and> (UpdatedAt r' = UpdatedAt r
            \<or> (\<exists>s. raw_field ''updated_at'' kvs = Some (JString s)
                   \<and> parse (UpdatedAt r) (Some s) = (None, UpdatedAt r'))))"
  using rac_replace_outcome [of "alias" "txt" kvs r] rac_outcome_fields [of "alias" kvs r] by blast

theorem rac_parses_only_updated_at_witness:
  "RecurringApplicationCharge_UnmarshalJSON skip_field
      (Some (JObject [(''activated_on'', JString ''not a date''),
                      (''updated_at'', JString ''2013-06-27T08:48:27-04:00'')]))
      \<lparr>UpdatedAt = None, rac_rest = ()\<rparr> =
     Return None \<lparr>UpdatedAt = Some \<lparr>t_year = 2013, t_month = 6, t_day = 27, t_hour = 8,
                      t_min = 48, t_sec = 27, t_nsec = 0, t_loc = FixedZone (- 14400)\<rparr>,
                  rac_rest = ()\<rparr>
   \<and> RecurringApplicationCharge_UnmarshalJSON skip_field
      (Some (JObject [(''activated_on'', JString ''2013-06-27''),
                      (''updated_at'', JString ''2013-06-27T08:48:27-04:00'')]))
      \<lparr>UpdatedAt = None, rac_rest = ()\<rparr> =
     Return None \<lparr>UpdatedAt = Some \<lparr>t_year = 2013, t_month = 6, t_day = 27, t_hour = 8,
                      t_min = 48, t_sec = 27, t_nsec = 0, t_loc = FixedZone (- 14400)\<rparr>,
                  rac_rest = ()\<rparr>"
proof -
  let ?kvs = "[(''activated_on'', JString ''not a date''),
               (''updated_at'', JString ''2013-06-27T08:48:27-04:00'')]"
  let ?r = "\<lparr>UpdatedAt = None, rac_rest = ()\<rparr>"
  have a: "RecurringApplicationCharge_UnmarshalJSON skip_field (Some (JObject ?kvs)) ?r =
     Return None \<lparr>UpdatedAt = Some \<lparr>t_year = 2013, t_month = 6, t_day = 27, t_hour = 8,
                      t_min = 48, t_sec = 27, t_nsec = 0, t_loc = FixedZone (- 14400)\<rparr>,
                  rac_rest = ()\<rparr>"
    by code_simp
  have b: "replace_discarded ''2013-06-27'' ?kvs =
      [(''activated_on'', JString ''2013-06-27''),
       (''updated_at'', JString ''2013-06-27T08:48:27-04:00'')]"
    by code_simp
  show ?thesis
    using a rac_parses_only_updated_at [of skip_field "''2013-06-27''" ?kvs ?r]
    unfolding b by simp
qed

end
